theory Spec2Isabelle
  imports Main
begin

section \<open>Parser contexts and source locations\<close>

text \<open>
  The listener of \<^verbatim>\<open>quint/src/parsing/ToIrListener.ts\<close> is driven by the parser's tree
  walk: each \<^verbatim>\<open>exit...\<close> method receives the context of the construct that was completed.
  A context is modelled by the data the listener reads from it: its start and stop
  tokens and its text (the base class \<^verbatim>\<open>ParserRuleContext\<close>), and, per construct, the texts
  and the numbers of the children the method asks for.
\<close>

record Token =
  tok_line :: int
  charPositionInLine :: int
  startIndex :: int
  stopIndex :: int

record ParserRuleContext =
  ctx_start :: Token
  ctx_stop :: "Token option"
  ctx_text :: string

record Pos =
  pos_line :: int
  pos_col :: int
  pos_index :: int

record Loc =
  loc_source :: string
  loc_start :: Pos
  loc_end :: "Pos option"

text \<open>\<^verbatim>\<open>loc(ctx)\<close>: the end column comes from the stop index unless that index is 0.\<close>

definition loc :: "string \<Rightarrow> 'a ParserRuleContext_scheme \<Rightarrow> Loc" where
  "loc src ctx =
     (case ctx_stop ctx of
        Some st \<Rightarrow>
          (let endCol =
                 (if stopIndex st \<noteq> 0
                  then charPositionInLine (ctx_start ctx) + (stopIndex st - startIndex (ctx_start ctx))
                  else charPositionInLine st)
           in \<lparr>loc_source = src,
               loc_start = \<lparr>pos_line = tok_line (ctx_start ctx) - 1,
                            pos_col = charPositionInLine (ctx_start ctx),
                            pos_index = startIndex (ctx_start ctx)\<rparr>,
               loc_end = Some \<lparr>pos_line = tok_line st - 1, pos_col = endCol,
                                pos_index = stopIndex st\<rparr>\<rparr>)
      | None \<Rightarrow>
          \<lparr>loc_source = src,
           loc_start = \<lparr>pos_line = tok_line (ctx_start ctx) - 1,
                        pos_col = charPositionInLine (ctx_start ctx),
                        pos_index = startIndex (ctx_start ctx)\<rparr>,
           loc_end = None\<rparr>)"

section \<open>The intermediate representation\<close>

datatype OpQualifier =
  QPureval | QPuredef | QVal | QDef | QAction | QRun | QTemporal | QNondet

text \<open>
  Types carry an optional identifier: the operator type that \<^verbatim>\<open>exitTypeSumDef\<close> builds
  for a constructor has none.
\<close>

datatype QuintType =
    TInt "int option"
  | TBool "int option"
  | TStr "int option"
  | TConst "int option" string
  | TVar "int option" string
  | TSet "int option" QuintType
  | TList "int option" QuintType
  | TFun "int option" QuintType QuintType
  | TOper "int option" "QuintType list" QuintType
  | TTup "int option" Row
  | TRec "int option" Row
  | TSum "int option" Row
and Row =
    RowEmpty
  | RowVar string
  | RowRow "RowField list" Row
and RowField =
    RowField string QuintType

record QuintLambdaParameter =
  param_id :: int
  param_name :: string

text \<open>
  \<^verbatim>\<open>ExUndefined\<close> is JavaScript's \<^verbatim>\<open>undefined\<close> standing where an expression is
  expected: what \<^verbatim>\<open>this.exprStack.pop()!\<close> yields on an empty stack.  An operator definition
  is \<^verbatim>\<open>OpDef id name qualifier expr typeAnnotation\<close>.
\<close>

datatype QuintEx =
    ExName int string
  | ExBool int bool
  | ExInt int int
  | ExStr int string
  | ExApp int string "QuintEx list"
  | ExLambda int "QuintLambdaParameter list" OpQualifier QuintEx
  | ExLet int QuintOpDef QuintEx
  | ExUndefined
and QuintOpDef =
    OpDef int string OpQualifier QuintEx "QuintType option"

text \<open>
  Declarations, as far as the modelled rules build them.  The name of an assumption is
  optional because \<^verbatim>\<open>exitAssume\<close> takes it from \<^verbatim>\<open>this.identOrHoleStack.pop()!\<close>.
\<close>

datatype QuintDeclaration =
    DeclDef QuintOpDef
  | DeclConst int string QuintType
  | DeclVar int string QuintType
  | DeclAssume int "string option" QuintEx
  | DeclTypeDef int string "QuintType option"

record QuintModule =
  mod_id :: int
  mod_name :: string
  declarations :: "QuintDeclaration list"
  mod_doc :: "string option"

text \<open>
  The two errors of \<^verbatim>\<open>parseErrors\<close> (not among the sources), kept as the calls that build
  them.
\<close>

datatype QuintError =
    lowercaseTypeError int string
  | tooManySpreadsError int

datatype ConsoleLine =
    ConsoleError string
  | ConsoleDebug string

datatype JsError = TypeError | SyntaxError

section \<open>The listener's state\<close>

text \<open>
  One field per field of the class; arrays are lists whose last element is the top of
  the stack (\<^verbatim>\<open>push\<close> appends, \<^verbatim>\<open>pop\<close> removes the last element).  \<^verbatim>\<open>console\<close> collects
  what the listener writes with \<^verbatim>\<open>console.error\<close> and \<^verbatim>\<open>console.debug\<close>.

  The field \<^verbatim>\<open>idGen\<close> is the state of the identifier generator: the identifier issued
  last.
\<close>

record ToIrListener =
  modules :: "QuintModule list"
  typeStack :: "QuintType list"
  sourceMap :: "int \<rightharpoonup> Loc"
  errors :: "QuintError list"
  sourceLocation :: string
  declarationStack :: "QuintDeclaration list"
  exprStack :: "QuintEx list"
  paramStack :: "QuintLambdaParameter list"
  identOrHoleStack :: "string list"
  identOrStarStack :: "string list"
  rowStack :: "Row list"
  variantStack :: "RowField list"
  idGen :: int
  console :: "ConsoleLine list"

definition newListener :: "string \<Rightarrow> int \<Rightarrow> ToIrListener" where
  "newListener src lastId =
     \<lparr>modules = [], typeStack = [], sourceMap = Map.empty, errors = [],
      sourceLocation = src, declarationStack = [], exprStack = [], paramStack = [],
      identOrHoleStack = [], identOrStarStack = [], rowStack = [], variantStack = [],
      idGen = lastId, console = []\<rparr>"

text \<open>
  Modelled from the spec: the \<^verbatim>\<open>IdGenerator\<close> (\<^verbatim>\<open>../idGenerator\<close>) is not among the sources.
  Section 4.1 of the specification has \<^verbatim>\<open>next()\<close> return a fresh, strictly increasing
  identifier: \<^verbatim>\<open>nextId\<close> takes the identifier issued last and returns its successor, as
  the new identifier and as the generator's new state.
\<close>

definition nextId :: "int \<Rightarrow> int \<times> int" where
  "nextId lastId = (lastId + 1, lastId + 1)"

text \<open>\<^verbatim>\<open>getId\<close>: generate an identifier and add it to the source map.\<close>

definition getId :: "'a ParserRuleContext_scheme \<Rightarrow> ToIrListener \<Rightarrow> int \<times> ToIrListener" where
  "getId ctx s =
     (let (i, gen) = nextId (idGen s)
      in (i, s\<lparr>idGen := gen, sourceMap := (sourceMap s)(i \<mapsto> loc (sourceLocation s) ctx)\<rparr>))"

definition consoleDebug :: "string \<Rightarrow> ToIrListener \<Rightarrow> ToIrListener" where
  "consoleDebug msg s = s\<lparr>console := console s @ [ConsoleDebug msg]\<rparr>"

definition consoleError :: "string \<Rightarrow> ToIrListener \<Rightarrow> ToIrListener" where
  "consoleError msg s = s\<lparr>console := console s @ [ConsoleError msg]\<rparr>"

text \<open>Decimal rendering of an identifier inside a template string.\<close>

fun digitsOf :: "nat \<Rightarrow> string" where
  "digitsOf n =
     (if n < 10 then [char_of (48 + n)] else digitsOf (n div 10) @ [char_of (48 + n mod 10)])"

definition showInt :: "int \<Rightarrow> string" where
  "showInt i = (if i < 0 then CHR ''-'' # digitsOf (nat (- i)) else digitsOf (nat i))"

section \<open>Recovery helpers\<close>

definition undefinedExpr :: "'a ParserRuleContext_scheme \<Rightarrow> ToIrListener \<Rightarrow> QuintEx \<times> ToIrListener" where
  "undefinedExpr ctx s =
     (let s0 = consoleDebug (''[DEBUG] generating undefined expr to fill hole in: '' @ ctx_text ctx) s;
          name = ''__undefinedExprGenerated'';
          (i1, s1) = getId ctx s0;
          (i2, s2) = getId ctx s1;
          (i3, s3) = getId ctx s2;
          (i4, s4) = getId ctx s3
      in (ExLet i1 (OpDef i2 name QVal (ExBool i3 True) None) (ExName i4 name), s4))"

definition undefinedDeclaration ::
  "'a ParserRuleContext_scheme \<Rightarrow> ToIrListener \<Rightarrow> QuintDeclaration \<times> ToIrListener" where
  "undefinedDeclaration ctx s =
     (let s0 = consoleDebug (''[DEBUG] generating undefined declaration to fill hole in: '' @ ctx_text ctx) s;
          (i, s1) = getId ctx s0;
          (e, s2) = undefinedExpr ctx s1
      in (DeclAssume i (Some (''_undefinedDeclaration'' @ showInt i)) e, s2))"

definition undefinedParam ::
  "'a ParserRuleContext_scheme \<Rightarrow> ToIrListener \<Rightarrow> QuintLambdaParameter \<times> ToIrListener" where
  "undefinedParam ctx s =
     (let s0 = consoleDebug (''[DEBUG] generating undefined parameter to fill hole in: '' @ ctx_text ctx) s;
          (i, s1) = getId ctx s0
      in (\<lparr>param_id = i, param_name = ''__undefinedParam'' @ showInt i\<rparr>, s1))"

definition undefinedType :: "'a ParserRuleContext_scheme \<Rightarrow> ToIrListener \<Rightarrow> QuintType \<times> ToIrListener" where
  "undefinedType ctx s =
     (let s0 = consoleDebug (''[DEBUG] generating undefined type to fill hole in: '' @ ctx_text ctx) s;
          (i, s1) = getId ctx s0
      in (TVar (Some i) ''undefinedType'', s1))"

definition undefinedVariant :: "'a ParserRuleContext_scheme \<Rightarrow> ToIrListener \<Rightarrow> RowField \<times> ToIrListener" where
  "undefinedVariant ctx s =
     (let s0 = consoleDebug (''[DEBUG] generating undefined variant to fill hole in: '' @ ctx_text ctx) s;
          (t, s1) = undefinedType ctx s0
      in (RowField ''__undefinedField'' t, s1))"

text \<open>
  \<^verbatim>\<open>popMany(stack, n, defaultGen)\<close>: with too few elements the stack is first filled up
  with generated defaults; then its last \<open>n\<close> elements are spliced off.  The result is
  the popped elements, what is left of the stack, and the state after the generator's
  calls (the generators issue identifiers and write to the console, they never touch a
  stack).
\<close>

fun pushDefaults :: "nat \<Rightarrow> ('s \<Rightarrow> 'a \<times> 's) \<Rightarrow> 'a list \<Rightarrow> 's \<Rightarrow> 'a list \<times> 's" where
  "pushDefaults 0 gen stack s = (stack, s)"
| "pushDefaults (Suc k) gen stack s =
     (let (x, s') = gen s in pushDefaults k gen (stack @ [x]) s')"

definition popMany :: "'a list \<Rightarrow> nat \<Rightarrow> ('s \<Rightarrow> 'a \<times> 's) \<Rightarrow> 's \<Rightarrow> ('a list \<times> 'a list) \<times> 's" where
  "popMany stack n gen s =
     (if n = 0 then (([], stack), s)
      else
        (let (stack', s') =
               (if length stack < n then pushDefaults (n - length stack) gen stack s
                else (stack, s))
         in ((drop (length stack' - n) stack', take (length stack' - n) stack'), s')))"

definition pop :: "'a list \<Rightarrow> 'a option \<times> 'a list" where
  "pop stack = (if stack = [] then (None, []) else (Some (last stack), butlast stack))"

definition popType :: "ToIrListener \<Rightarrow> QuintType option \<times> ToIrListener" where
  "popType s = (let (tp, rest) = pop (typeStack s) in (tp, s\<lparr>typeStack := rest\<rparr>))"

definition popRow :: "ToIrListener \<Rightarrow> Row \<times> ToIrListener" where
  "popRow s =
     (let (r, rest) = pop (rowStack s)
      in (case r of Some row \<Rightarrow> row | None \<Rightarrow> RowEmpty, s\<lparr>rowStack := rest\<rparr>))"

text \<open>
  \<^verbatim>\<open>this.exprStack.pop() ?? this.undefinedExpr(ctx)()\<close>: the placeholder is built when the
  stack is empty and also when the element popped is \<^verbatim>\<open>undefined\<close>.
\<close>

definition popExprOrUndefined ::
  "'a ParserRuleContext_scheme \<Rightarrow> ToIrListener \<Rightarrow> QuintEx \<times> ToIrListener" where
  "popExprOrUndefined ctx s =
     (case pop (exprStack s) of
        (Some e, rest) \<Rightarrow>
          (if e = ExUndefined then undefinedExpr ctx (s\<lparr>exprStack := rest\<rparr>)
           else (e, s\<lparr>exprStack := rest\<rparr>))
      | (None, rest) \<Rightarrow> undefinedExpr ctx (s\<lparr>exprStack := rest\<rparr>))"

text \<open>\<^verbatim>\<open>this.exprStack.pop()!\<close>: on an empty stack the result is \<^verbatim>\<open>undefined\<close>.\<close>

definition popExprUnchecked :: "ToIrListener \<Rightarrow> QuintEx \<times> ToIrListener" where
  "popExprUnchecked s =
     (case pop (exprStack s) of
        (Some e, rest) \<Rightarrow> (e, s\<lparr>exprStack := rest\<rparr>)
      | (None, rest) \<Rightarrow> (ExUndefined, s\<lparr>exprStack := rest\<rparr>))"

definition popManyExprs ::
  "'a ParserRuleContext_scheme \<Rightarrow> nat \<Rightarrow> ToIrListener \<Rightarrow> QuintEx list \<times> ToIrListener" where
  "popManyExprs ctx n s =
     (let ((popped, rest), s') = popMany (exprStack s) n (undefinedExpr ctx) s
      in (popped, s'\<lparr>exprStack := rest\<rparr>))"

definition popManyParams ::
  "'a ParserRuleContext_scheme \<Rightarrow> nat \<Rightarrow> ToIrListener \<Rightarrow> QuintLambdaParameter list \<times> ToIrListener" where
  "popManyParams ctx n s =
     (let ((popped, rest), s') = popMany (paramStack s) n (undefinedParam ctx) s
      in (popped, s'\<lparr>paramStack := rest\<rparr>))"

definition popManyTypes ::
  "'a ParserRuleContext_scheme \<Rightarrow> nat \<Rightarrow> ToIrListener \<Rightarrow> QuintType list \<times> ToIrListener" where
  "popManyTypes ctx n s =
     (let ((popped, rest), s') = popMany (typeStack s) n (undefinedType ctx) s
      in (popped, s'\<lparr>typeStack := rest\<rparr>))"

definition pushApplication ::
  "'a ParserRuleContext_scheme \<Rightarrow> string \<Rightarrow> QuintEx list \<Rightarrow> ToIrListener \<Rightarrow> ToIrListener" where
  "pushApplication ctx name args s =
     (let (i, s1) = getId ctx s
      in s1\<lparr>exprStack := exprStack s1 @ [ExApp i name args]\<rparr>)"

section \<open>Strings and numbers of the host language\<close>

definition isLowerAz :: "char \<Rightarrow> bool" where
  "isLowerAz c = (97 \<le> (of_char c :: nat) \<and> (of_char c :: nat) \<le> 122)"

definition isDigit :: "char \<Rightarrow> bool" where
  "isDigit c = (48 \<le> (of_char c :: nat) \<and> (of_char c :: nat) \<le> 57)"

definition isHexDigit :: "char \<Rightarrow> bool" where
  "isHexDigit c =
     (isDigit c \<or> (97 \<le> (of_char c :: nat) \<and> (of_char c :: nat) \<le> 102)
      \<or> (65 \<le> (of_char c :: nat) \<and> (of_char c :: nat) \<le> 70))"

definition hexDigitVal :: "char \<Rightarrow> int" where
  "hexDigitVal c =
     (if isDigit c then int (of_char c) - 48
      else if 97 \<le> (of_char c :: nat) then int (of_char c) - 87
      else int (of_char c) - 55)"

definition decimalValue :: "string \<Rightarrow> int" where
  "decimalValue ds = foldl (\<lambda>acc c. 10 * acc + (int (of_char c) - 48)) 0 ds"

definition hexValue :: "string \<Rightarrow> int" where
  "hexValue ds = foldl (\<lambda>acc c. 16 * acc + hexDigitVal c) 0 ds"

text \<open>
  JavaScript's \<^verbatim>\<open>BigInt(text)\<close> on the texts an integer token can hold: decimal digits, or
  hexadecimal digits after \<^verbatim>\<open>0x\<close>; the empty string reads as 0.  On any other text the
  model answers \<open>None\<close>, which the callers turn into a \<^verbatim>\<open>SyntaxError\<close> (signs, blanks and the
  octal and binary prefixes that \<^verbatim>\<open>BigInt\<close> also reads are not modelled).
\<close>

definition BigInt :: "string \<Rightarrow> int option" where
  "BigInt t =
     (if t = [] then Some 0
      else if list_all isDigit t then Some (decimalValue t)
      else (case t of
              a # b # ds \<Rightarrow>
                (if a = CHR ''0'' \<and> (b = CHR ''x'' \<or> b = CHR ''X'') \<and> ds \<noteq> [] \<and> list_all isHexDigit ds
                 then Some (hexValue ds) else None)
            | _ \<Rightarrow> None))"

text \<open>\<^verbatim>\<open>text.slice(from, -1)\<close>\<close>

definition sliceToLast :: "nat \<Rightarrow> string \<Rightarrow> string" where
  "sliceToLast from t = butlast (drop from t)"

fun joinLines :: "string list \<Rightarrow> string" where
  "joinLines [] = []"
| "joinLines [l] = l"
| "joinLines (l # ls) = l @ [CHR 0x0A] @ joinLines ls"

definition getDocText :: "string list \<Rightarrow> string" where
  "getDocText doc = joinLines (map (sliceToLast 4) doc)"

text \<open>
  \<^verbatim>\<open>name.match(/^_([1-9][0-9]?)$/)\<close>: the captured group when the whole name is an
  underscore followed by one digit 1-9 and at most one more digit.
\<close>

definition matchTupleAccessor :: "string \<Rightarrow> string option" where
  "matchTupleAccessor name =
     (case name of
        [u, d1] \<Rightarrow>
          (if u = CHR ''_'' \<and> isDigit d1 \<and> d1 \<noteq> CHR ''0'' then Some [d1] else None)
      | [u, d1, d2] \<Rightarrow>
          (if u = CHR ''_'' \<and> isDigit d1 \<and> d1 \<noteq> CHR ''0'' \<and> isDigit d2 then Some [d1, d2] else None)
      | _ \<Rightarrow> None)"

section \<open>Unit type and unit value\<close>

text \<open>
  Modelled from the spec: \<^verbatim>\<open>unitType\<close> and \<^verbatim>\<open>isUnitType\<close> belong to \<^verbatim>\<open>ir/quintTypes\<close>, which
  is not among the sources.  Section 4.4 of the specification treats an absent payload as
  the unit type, the empty record type: a record type over a closed row without fields.
\<close>

definition unitType :: "int \<Rightarrow> QuintType" where
  "unitType i = TRec (Some i) (RowRow [] RowEmpty)"

fun isUnitType :: "QuintType \<Rightarrow> bool" where
  "isUnitType (TRec i (RowRow [] RowEmpty)) = True"
| "isUnitType t = False"

definition unitValue :: "int \<Rightarrow> QuintEx" where
  "unitValue i = ExApp i ''Rec'' []"

section \<open>Contexts of the constructs\<close>

record ModuleContext = ParserRuleContext +
  mod_qualId :: string
  DOCCOMMENT :: "string list"

record OperDefContext = ParserRuleContext +
  normalCallName :: string
  operdef_n_parameter :: nat
  operdef_n_type :: nat
  operdef_has_expr :: bool
  operdef_qualifier :: "string option"

record TypeDefContext = ParserRuleContext +
  typedef_qualId :: string

record TypeSumVariantContext = ParserRuleContext +
  sumLabel :: ParserRuleContext
  variant_type :: "ParserRuleContext option"

record TypeSumDefContext = ParserRuleContext +
  typeName :: string
  typeSumVariant :: "TypeSumVariantContext list"

record LiteralOrIdContext = ParserRuleContext +
  lit_qualId :: "string option"
  lit_INT :: "string option"
  lit_BOOL :: "string option"
  lit_STRING :: "string option"

record DotCallContext = ParserRuleContext +
  dot_has_argList :: bool
  nameAfterDot :: string
  dot_LPAREN :: bool

record ArgListContext = ParserRuleContext +
  arglist_n_expr :: nat

record LambdaContext = ParserRuleContext +
  lambda_n_parameter :: nat

record IdentOrHoleContext = ParserRuleContext +
  hole_qualId :: "string option"

record RecElemContext = ParserRuleContext +
  simpleId :: "string option"

record RecordContext = ParserRuleContext +
  n_recElem :: nat

record MatchSumVariantContext =
  variantLabel :: string
  variantParam :: "string option"

record MatchSumCaseContext = ParserRuleContext +
  variantMatch :: "MatchSumVariantContext option"

record MatchSumExprContext = ParserRuleContext +
  matchCase :: "MatchSumCaseContext list"

record PlusMinusContext = ParserRuleContext +
  has_PLUS :: bool

record OperAppContext = ParserRuleContext +
  operapp_name :: string
  operapp_has_argList :: bool

record RowContext = ParserRuleContext +
  rowLabel :: "string list"
  row_n_type :: nat
  rowVar :: "string option"

section \<open>Declarations\<close>

text \<open>\<^verbatim>\<open>exitModule\<close>\<close>

definition leftOnStackMessage :: string where
  "leftOnStackMessage =
     ''ATTENTION: There is some component(s) left on the stack(s) after parsing a module, please report a bug''"

definition exitModule :: "ModuleContext \<Rightarrow> ToIrListener \<Rightarrow> ToIrListener" where
  "exitModule ctx s =
     (let s1 = (if length (exprStack s) > 0 \<or> length (identOrStarStack s) > 0
                   \<or> length (rowStack s) > 0 \<or> length (variantStack s) > 0
                then consoleError leftOnStackMessage s
                else s);
          (moduleId, s2) = getId ctx s1;
          module = \<lparr>mod_id = moduleId, mod_name = mod_qualId ctx,
                    declarations = declarationStack s2, mod_doc = None\<rparr>;
          s3 = s2\<lparr>declarationStack := []\<rparr>;
          doc = getDocText (DOCCOMMENT ctx)
      in if doc \<noteq> [] then s3\<lparr>modules := modules s3 @ [module\<lparr>mod_doc := Some doc\<rparr>]\<rparr>
         else s3\<lparr>modules := modules s3 @ [module]\<rparr>)"

text \<open>\<^verbatim>\<open>processOpDefParams\<close> and \<^verbatim>\<open>exitOperDef\<close>\<close>

definition processOpDefParams ::
  "OperDefContext \<Rightarrow> ToIrListener \<Rightarrow> (QuintLambdaParameter list \<times> QuintType option) \<times> ToIrListener" where
  "processOpDefParams ctx s =
     (let (params, s1) = popManyParams ctx (operdef_n_parameter ctx) s;
          ntypes = operdef_n_type ctx
      in if ntypes = 0 then ((params, None), s1)
         else if ntypes > 1 then
           (let (types, s2) = popManyTypes ctx ntypes s1;
                (i, s3) = getId ctx s2
            in ((params, Some (TOper (Some i) (butlast types) (last types))), s3))
         else
           (let (fullType, s2) = popType s1 in ((params, fullType), s2)))"

definition operQualifier :: "string option \<Rightarrow> OpQualifier" where
  "operQualifier q =
     (case q of
        None \<Rightarrow> QDef
      | Some qtext \<Rightarrow>
          (if qtext = ''pureval'' then QPureval
           else if qtext = ''puredef'' then QPuredef
           else if qtext = ''val'' then QVal
           else if qtext = ''def'' then QDef
           else if qtext = ''action'' then QAction
           else if qtext = ''run'' then QRun
           else if qtext = ''temporal'' then QTemporal
           else QDef))"

definition exitOperDef :: "OperDefContext \<Rightarrow> ToIrListener \<Rightarrow> ToIrListener" where
  "exitOperDef ctx s =
     (let name = normalCallName ctx;
          ((params, typeTag), s1) = processOpDefParams ctx s;
          (expr, s2) =
             (if operdef_has_expr ctx then popExprOrUndefined ctx s1
              else (let (i, s') = getId ctx s1 in (ExBool i True, s')));
          qualifier = operQualifier (operdef_qualifier ctx);
          (body, s3) =
             (if length params > 0
              then (let (i, s') = getId ctx s2 in (ExLambda i params qualifier expr, s'))
              else (expr, s2));
          (i, s4) = getId ctx s3
      in s4\<lparr>declarationStack :=
              declarationStack s4 @ [DeclDef (OpDef i name qualifier body typeTag)]\<rparr>)"

text \<open>\<^verbatim>\<open>exitAssume\<close>: both pops are unchecked.\<close>

definition exitAssume :: "'a ParserRuleContext_scheme \<Rightarrow> ToIrListener \<Rightarrow> ToIrListener" where
  "exitAssume ctx s =
     (let (expr, s1) = popExprUnchecked s;
          (name, rest) = pop (identOrHoleStack s1);
          s2 = s1\<lparr>identOrHoleStack := rest\<rparr>;
          (i, s3) = getId ctx s2
      in s3\<lparr>declarationStack := declarationStack s3 @ [DeclAssume i name expr]\<rparr>)"

text \<open>
  \<^verbatim>\<open>exitTypeAbstractDef\<close> and \<^verbatim>\<open>exitTypeAliasDef\<close>.  \<^verbatim>\<open>name[0].match('[a-z]')\<close> raises a
  \<^verbatim>\<open>TypeError\<close> on the empty name.
\<close>

definition exitTypeAbstractDef :: "TypeDefContext \<Rightarrow> ToIrListener \<Rightarrow> JsError + ToIrListener" where
  "exitTypeAbstractDef ctx s =
     (let name = typedef_qualId ctx;
          (i, s1) = getId ctx s
      in case name of
           [] \<Rightarrow> Inl TypeError
         | c # cs \<Rightarrow>
             (let s2 = (if isLowerAz c then s1\<lparr>errors := errors s1 @ [lowercaseTypeError i name]\<rparr>
                        else s1)
              in Inr (s2\<lparr>declarationStack := declarationStack s2 @ [DeclTypeDef i name None]\<rparr>)))"

definition exitTypeAliasDef :: "TypeDefContext \<Rightarrow> ToIrListener \<Rightarrow> JsError + ToIrListener" where
  "exitTypeAliasDef ctx s =
     (let name = typedef_qualId ctx;
          (tp, s0) = popType s;
          (i, s1) = getId ctx s0
      in case name of
           [] \<Rightarrow> Inl TypeError
         | c # cs \<Rightarrow>
             (let s2 = (if isLowerAz c then s1\<lparr>errors := errors s1 @ [lowercaseTypeError i name]\<rparr>
                        else s1)
              in Inr (s2\<lparr>declarationStack := declarationStack s2 @ [DeclTypeDef i name tp]\<rparr>)))"

text \<open>\<^verbatim>\<open>exitTypeSumVariant\<close>\<close>

definition exitTypeSumVariant :: "TypeSumVariantContext \<Rightarrow> ToIrListener \<Rightarrow> ToIrListener" where
  "exitTypeSumVariant ctx s =
     (let fieldName = ctx_text (sumLabel ctx);
          (poppedType, s1) = popType s;
          (fieldType, s2) =
             (case poppedType of
                Some t \<Rightarrow> (t, s1)
              | None \<Rightarrow> (let (i, s') = getId ctx s1 in (unitType i, s')))
      in s2\<lparr>variantStack := variantStack s2 @ [RowField fieldName fieldType]\<rparr>)"

text \<open>
  \<^verbatim>\<open>exitTypeSumDef\<close>.  \<^verbatim>\<open>variantConstructor\<close> is the function mapped over the variants; it
  raises a \<^verbatim>\<open>TypeError\<close> when the field has a payload type but the variant's context has no
  type child (\<^verbatim>\<open>this.getId(variantCtx.type()!)\<close>).  \<^verbatim>\<open>zip\<close> (of \<^verbatim>\<open>../util\<close>, not among the
  sources) pairs the two arrays index by index.
\<close>

definition variantConstructor ::
  "QuintType \<Rightarrow> RowField \<Rightarrow> TypeSumVariantContext \<Rightarrow> ToIrListener \<Rightarrow> JsError + (QuintOpDef \<times> ToIrListener)" where
  "variantConstructor typeNameT field variantCtx s =
     (case field of
        RowField fieldName fieldType \<Rightarrow>
          (let paramName = ''__'' @ fieldName @ ''Param'';
               (labelId, s1) = getId variantCtx s;
               label = ExStr labelId fieldName
           in if isUnitType fieldType then
                (let (w, s2) = getId (sumLabel variantCtx) s1;
                     wrappedExpr = unitValue w;
                     (e, s3) = getId variantCtx s2;
                     expr = ExApp e ''variant'' [label, wrappedExpr];
                     (d, s4) = getId variantCtx s3
                 in Inr (OpDef d fieldName QVal expr (Some typeNameT), s4))
              else
                (case variant_type variantCtx of
                   None \<Rightarrow> Inl TypeError
                 | Some typeCtx \<Rightarrow>
                     (let (p, s2) = getId typeCtx s1;
                          params = [\<lparr>param_id = p, param_name = paramName\<rparr>];
                          (w, s3) = getId (sumLabel variantCtx) s2;
                          wrappedExpr = ExName w paramName;
                          (v, s4) = getId variantCtx s3;
                          variant = ExApp v ''variant'' [label, wrappedExpr];
                          typeAnnotation = TOper None [fieldType] typeNameT;
                          (l, s5) = getId variantCtx s4;
                          expr = ExLambda l params QDef variant;
                          (d, s6) = getId variantCtx s5
                      in Inr (OpDef d fieldName QDef expr (Some typeAnnotation), s6)))))"

fun variantConstructors ::
  "QuintType \<Rightarrow> (RowField \<times> TypeSumVariantContext) list \<Rightarrow> ToIrListener
     \<Rightarrow> JsError + (QuintOpDef list \<times> ToIrListener)" where
  "variantConstructors typeNameT [] s = Inr ([], s)"
| "variantConstructors typeNameT ((field, variantCtx) # rest) s =
     (case variantConstructor typeNameT field variantCtx s of
        Inl err \<Rightarrow> Inl err
      | Inr (c, s1) \<Rightarrow>
          (case variantConstructors typeNameT rest s1 of
             Inl err \<Rightarrow> Inl err
           | Inr (cs, s2) \<Rightarrow> Inr (c # cs, s2)))"

definition exitTypeSumDef :: "TypeSumDefContext \<Rightarrow> ToIrListener \<Rightarrow> JsError + ToIrListener" where
  "exitTypeSumDef ctx s =
     (let name = typeName ctx;
          (i, s1) = getId ctx s;
          ((fields, rest), s2) = popMany (variantStack s1) (length (variantStack s1)) (undefinedVariant ctx) s1;
          s3 = s2\<lparr>variantStack := rest\<rparr>;
          row = RowRow fields RowEmpty;
          type = TSum (Some i) row;
          typeNameT = TConst (Some i) name;
          def = DeclTypeDef i name (Some type)
      in case variantConstructors typeNameT (zip fields (typeSumVariant ctx)) s3 of
           Inl err \<Rightarrow> Inl err
         | Inr (constructors, s4) \<Rightarrow>
             Inr (s4\<lparr>declarationStack := declarationStack s4 @ def # map DeclDef constructors\<rparr>))"

section \<open>Expressions\<close>

definition pushExpr :: "QuintEx \<Rightarrow> ToIrListener \<Rightarrow> ToIrListener" where
  "pushExpr e s = s\<lparr>exprStack := exprStack s @ [e]\<rparr>"

text \<open>\<^verbatim>\<open>exitLiteralOrId\<close>: one identifier, then one push per child that is present.\<close>

definition exitLiteralOrId :: "LiteralOrIdContext \<Rightarrow> ToIrListener \<Rightarrow> JsError + ToIrListener" where
  "exitLiteralOrId ctx s =
     (let (i, s1) = getId ctx s;
          s2 = (case lit_qualId ctx of Some ident \<Rightarrow> pushExpr (ExName i ident) s1 | None \<Rightarrow> s1)
      in case (case lit_INT ctx of
                 None \<Rightarrow> Inr s2
               | Some t \<Rightarrow>
                   (case BigInt (filter (\<lambda>c. c \<noteq> CHR ''_'') t) of
                      None \<Rightarrow> Inl SyntaxError
                    | Some v \<Rightarrow> Inr (pushExpr (ExInt i v) s2))) of
           Inl err \<Rightarrow> Inl err
         | Inr s3 \<Rightarrow>
             (let s4 = (case lit_BOOL ctx of
                          Some b \<Rightarrow> pushExpr (ExBool i (b = ''true'')) s3
                        | None \<Rightarrow> s3);
                  s5 = (case lit_STRING ctx of
                          Some str \<Rightarrow> pushExpr (ExStr i (sliceToLast 1 str)) s4
                        | None \<Rightarrow> s4)
              in Inr s5))"

definition isWrappedArgs :: "QuintEx \<Rightarrow> bool" where
  "isWrappedArgs e = (case e of ExApp i opcode args \<Rightarrow> opcode = ''wrappedArgs'' | _ \<Rightarrow> False)"

definition appArgs :: "QuintEx \<Rightarrow> QuintEx list" where
  "appArgs e = (case e of ExApp i opcode args \<Rightarrow> args | _ \<Rightarrow> [])"

text \<open>\<^verbatim>\<open>exitArgList\<close>: the arguments are wrapped in a temporary application with identifier 0.\<close>

definition exitArgList :: "ArgListContext \<Rightarrow> ToIrListener \<Rightarrow> ToIrListener" where
  "exitArgList ctx s =
     (let (args, s1) = popManyExprs ctx (arglist_n_expr ctx) s
      in pushExpr (ExApp 0 ''wrappedArgs'' args) s1)"

text \<open>\<^verbatim>\<open>exitOperApp\<close>\<close>

definition exitOperApp :: "OperAppContext \<Rightarrow> ToIrListener \<Rightarrow> ToIrListener" where
  "exitOperApp ctx s =
     (let name = operapp_name ctx
      in if operapp_has_argList ctx then
           (let (wrappedArgs, s1) = popExprOrUndefined ctx s
            in if \<not> isWrappedArgs wrappedArgs
               then consoleDebug (''[DEBUG] unexpected arguments found in arg list from: '' @ ctx_text ctx) s1
               else pushApplication ctx name (appArgs wrappedArgs) s1)
         else pushApplication ctx name [] s)"

text \<open>\<^verbatim>\<open>exitDotCall\<close>\<close>

definition exitDotCall :: "DotCallContext \<Rightarrow> ToIrListener \<Rightarrow> JsError + ToIrListener" where
  "exitDotCall ctx s =
     (let (wrappedArgs, s1) =
             (if dot_has_argList ctx
              then (let (w, s') = popExprOrUndefined ctx s in (Some w, s'))
              else (None, s));
          name = nameAfterDot ctx;
          (callee, s2) = popExprOrUndefined ctx s1
      in if dot_LPAREN ctx then
           (case wrappedArgs of
              Some w \<Rightarrow>
                (if \<not> isWrappedArgs w
                 then Inr (consoleDebug (''[DEBUG] unexpected arguments found in arg list from: '' @ ctx_text ctx) s2)
                 else Inr (pushApplication ctx name (callee # appArgs w) s2))
            | None \<Rightarrow> Inr (pushApplication ctx name [callee] s2))
         else
           (let (i, s3) = getId ctx s2
            in case matchTupleAccessor name of
                 Some m1 \<Rightarrow>
                   (case BigInt m1 of
                      Some v \<Rightarrow> Inr (pushApplication ctx ''item'' [callee, ExInt i v] s3)
                    | None \<Rightarrow> Inl SyntaxError)
               | None \<Rightarrow> Inr (pushApplication ctx ''field'' [callee, ExStr i name] s3)))"

text \<open>
  \<^verbatim>\<open>letBindingForTupleParam\<close> and \<^verbatim>\<open>exitLambdaTupleSugar\<close>.  \<^verbatim>\<open>tupleParamsReduce\<close> is
  \<^verbatim>\<open>params.reduce(this.letBindingForTupleParam(ctx, freshLambdaParam), expr)\<close>: the callback
  receives the accumulated body, the parameter and the parameter's index.
\<close>

definition letBindingForTupleParam ::
  "'a ParserRuleContext_scheme \<Rightarrow> QuintLambdaParameter \<Rightarrow> QuintEx \<Rightarrow> QuintLambdaParameter \<Rightarrow> nat
     \<Rightarrow> ToIrListener \<Rightarrow> QuintEx \<times> ToIrListener" where
  "letBindingForTupleParam ctx freshParam body param idx s =
     (let (i1, s1) = getId ctx s;
          (i2, s2) = getId ctx s1;
          (i3, s3) = getId ctx s2;
          (i4, s4) = getId ctx s3
      in (ExLet i1
            (OpDef (param_id param) (param_name param) QPureval
               (ExApp i2 ''item'' [ExName i3 (param_name freshParam), ExInt i4 (int idx + 1)]) None)
            body, s4))"

fun tupleParamsReduce ::
  "'a ParserRuleContext_scheme \<Rightarrow> QuintLambdaParameter \<Rightarrow> QuintLambdaParameter list \<Rightarrow> nat \<Rightarrow> QuintEx
     \<Rightarrow> ToIrListener \<Rightarrow> QuintEx \<times> ToIrListener" where
  "tupleParamsReduce ctx freshParam [] idx acc s = (acc, s)"
| "tupleParamsReduce ctx freshParam (param # params) idx acc s =
     (let (acc', s') = letBindingForTupleParam ctx freshParam acc param idx s
      in tupleParamsReduce ctx freshParam params (Suc idx) acc' s')"

definition exitLambdaTupleSugar :: "LambdaContext \<Rightarrow> ToIrListener \<Rightarrow> ToIrListener" where
  "exitLambdaTupleSugar ctx s =
     (let (expr, s1) = popExprOrUndefined ctx s;
          (params, s2) = popManyParams ctx (lambda_n_parameter ctx) s1;
          (i, s3) = getId ctx s2;
          freshLambdaParam = \<lparr>param_id = i, param_name = ''quintTupledLambdaParam'' @ showInt i\<rparr>;
          (letBindingForTupleParams, s4) = tupleParamsReduce ctx freshLambdaParam params 0 expr s3;
          (l, s5) = getId ctx s4
      in pushExpr (ExLambda l [freshLambdaParam] QDef letBindingForTupleParams) s5)"

text \<open>\<^verbatim>\<open>exitLambdaUnsugared\<close>\<close>

definition exitLambdaUnsugared :: "LambdaContext \<Rightarrow> ToIrListener \<Rightarrow> ToIrListener" where
  "exitLambdaUnsugared ctx s =
     (let (expr, s1) = popExprOrUndefined ctx s;
          (params, s2) = popManyParams ctx (lambda_n_parameter ctx) s1;
          (i, s3) = getId ctx s2
      in pushExpr (ExLambda i params QDef expr) s3)"

text \<open>
  \<^verbatim>\<open>exitIdentOrHole\<close> and \<^verbatim>\<open>exitParameter\<close>.  \<^verbatim>\<open>ctx.qualId()!.text\<close> raises a \<^verbatim>\<open>TypeError\<close>
  when the context has no identifier.
\<close>

definition exitIdentOrHole :: "IdentOrHoleContext \<Rightarrow> ToIrListener \<Rightarrow> JsError + ToIrListener" where
  "exitIdentOrHole ctx s =
     (if ctx_text ctx = ''_'' then Inr (s\<lparr>identOrHoleStack := identOrHoleStack s @ [''_'']\<rparr>)
      else (case hole_qualId ctx of
              Some name \<Rightarrow> Inr (s\<lparr>identOrHoleStack := identOrHoleStack s @ [name]\<rparr>)
            | None \<Rightarrow> Inl TypeError))"

definition exitParameter :: "'a ParserRuleContext_scheme \<Rightarrow> ToIrListener \<Rightarrow> ToIrListener" where
  "exitParameter ctx s =
     (let ((names, rest), s0) = popMany (identOrHoleStack s) 1 (\<lambda>st. (''_'', st)) s;
          s1 = s0\<lparr>identOrHoleStack := rest\<rparr>;
          name = (case names of n # ns \<Rightarrow> n | [] \<Rightarrow> ''_'');
          (i, s2) = getId ctx s1
      in s2\<lparr>paramStack := paramStack s2 @ [\<lparr>param_id = i, param_name = name\<rparr>]\<rparr>)"

text \<open>
  \<^verbatim>\<open>exitRecElem\<close>: a pair \<^verbatim>\<open>field: expr\<close> or a spread \<^verbatim>\<open>...expr\<close> is wrapped into a temporary
  \<^verbatim>\<open>Tup\<close> application with identifier 0, for \<^verbatim>\<open>exitRecord\<close> to take apart.
\<close>

definition exitRecElem :: "RecElemContext \<Rightarrow> ToIrListener \<Rightarrow> ToIrListener" where
  "exitRecElem ctx s =
     (let (expr, s1) = popExprUnchecked s
      in case simpleId ctx of
           Some field \<Rightarrow>
             (let (i, s2) = getId ctx s1;
                  nameEx = ExStr i field
              in pushExpr (ExApp 0 ''Tup'' [nameEx, expr]) s2)
         | None \<Rightarrow> pushExpr (ExApp 0 ''Tup'' [expr]) s1)"

text \<open>
  \<^verbatim>\<open>exitRecord\<close>.  \<^verbatim>\<open>isAppWithArgs n\<close> is the test \<^verbatim>\<open>e.kind === 'app' && e.args.length === n\<close>:
  reading \<^verbatim>\<open>kind\<close> of an element that is \<^verbatim>\<open>undefined\<close> raises a \<^verbatim>\<open>TypeError\<close>.  \<^verbatim>\<open>filterE\<close> and
  \<^verbatim>\<open>mapE\<close> are \<^verbatim>\<open>Array.prototype.filter\<close> and \<^verbatim>\<open>Array.prototype.map\<close> with a callback that
  may raise: the elements are visited from left to right and the first exception ends the
  call.  \<^verbatim>\<open>pairArgs\<close> is the callback \<^verbatim>\<open>e => (e.kind === 'app' && e.args.length === 2 ? e.args : [])\<close>,
  and \<^verbatim>\<open>withLoop\<close> is the \<^verbatim>\<open>for (const p of pairs)\<close> loop.  In the last branch there is
  exactly one spread, an application with one argument, so \<^verbatim>\<open>spreads[0].args[0]\<close> is an element
  of the array.
\<close>

definition isAppWithArgs :: "nat \<Rightarrow> QuintEx \<Rightarrow> JsError + bool" where
  "isAppWithArgs n e =
     (case e of
        ExUndefined \<Rightarrow> Inl TypeError
      | ExApp i opcode args \<Rightarrow> Inr (length args = n)
      | _ \<Rightarrow> Inr False)"

fun filterE :: "('a \<Rightarrow> JsError + bool) \<Rightarrow> 'a list \<Rightarrow> JsError + 'a list" where
  "filterE p [] = Inr []"
| "filterE p (x # xs) =
     (case p x of
        Inl err \<Rightarrow> Inl err
      | Inr b \<Rightarrow>
          (case filterE p xs of
             Inl err \<Rightarrow> Inl err
           | Inr ys \<Rightarrow> Inr (if b then x # ys else ys)))"

fun mapE :: "('a \<Rightarrow> JsError + 'b) \<Rightarrow> 'a list \<Rightarrow> JsError + 'b list" where
  "mapE f [] = Inr []"
| "mapE f (x # xs) =
     (case f x of
        Inl err \<Rightarrow> Inl err
      | Inr y \<Rightarrow>
          (case mapE f xs of
             Inl err \<Rightarrow> Inl err
           | Inr ys \<Rightarrow> Inr (y # ys)))"

definition pairArgs :: "QuintEx \<Rightarrow> JsError + QuintEx list" where
  "pairArgs e =
     (case isAppWithArgs 2 e of
        Inl err \<Rightarrow> Inl err
      | Inr b \<Rightarrow> Inr (if b then appArgs e else []))"

fun withLoop ::
  "'a ParserRuleContext_scheme \<Rightarrow> QuintEx list list \<Rightarrow> QuintEx \<Rightarrow> ToIrListener \<Rightarrow> QuintEx \<times> ToIrListener" where
  "withLoop ctx [] record s = (record, s)"
| "withLoop ctx (p # ps) record s =
     (let (i, s') = getId ctx s in withLoop ctx ps (ExApp i ''with'' (record # p)) s')"

definition exitRecord :: "RecordContext \<Rightarrow> ToIrListener \<Rightarrow> JsError + ToIrListener" where
  "exitRecord ctx s =
     (let (elems, s1) = popManyExprs ctx (n_recElem ctx) s
      in case filterE (isAppWithArgs 1) elems of
           Inl err \<Rightarrow> Inl err
         | Inr spreads \<Rightarrow>
             (case mapE pairArgs elems of
                Inl err \<Rightarrow> Inl err
              | Inr unfiltered \<Rightarrow>
                  (let pairs = filter (\<lambda>es. length es > 0) unfiltered
                   in if length spreads = 0 then Inr (pushApplication ctx ''Rec'' (concat pairs) s1)
                      else if length spreads > 1 then
                        (let (i, s2) = getId ctx s1
                         in Inr (s2\<lparr>errors := errors s2 @ [tooManySpreadsError i]\<rparr>))
                      else
                        (let (record, s2) = withLoop ctx pairs (hd (appArgs (hd spreads))) s1
                         in Inr (pushExpr record s2)))))"

text \<open>
  \<^verbatim>\<open>exitUminus\<close>: the test \<^verbatim>\<open>if (arg)\<close> fails when the stack is empty and when the element
  popped is \<^verbatim>\<open>undefined\<close>; nothing is pushed then.
\<close>

definition exitUminus :: "'a ParserRuleContext_scheme \<Rightarrow> ToIrListener \<Rightarrow> ToIrListener" where
  "exitUminus ctx s =
     (case pop (exprStack s) of
        (Some arg, rest) \<Rightarrow>
          (if arg = ExUndefined then s\<lparr>exprStack := rest\<rparr>
           else pushApplication ctx ''iuminus'' [arg] (s\<lparr>exprStack := rest\<rparr>))
      | (None, rest) \<Rightarrow> s\<lparr>exprStack := rest\<rparr>)"

text \<open>A binary operator, for comparison: \<^verbatim>\<open>exitPlusMinus\<close>.\<close>

definition exitPlusMinus :: "PlusMinusContext \<Rightarrow> ToIrListener \<Rightarrow> ToIrListener" where
  "exitPlusMinus ctx s =
     (let opcode = (if has_PLUS ctx then ''iadd'' else ''isub'');
          (args, s1) = popManyExprs ctx 2 s
      in pushApplication ctx opcode args s1)"

text \<open>\<^verbatim>\<open>formMatchCase\<close> and \<^verbatim>\<open>exitMatchSumExpr\<close>\<close>

definition formMatchCase ::
  "QuintEx \<Rightarrow> MatchSumCaseContext \<Rightarrow> ToIrListener \<Rightarrow> QuintEx list \<times> ToIrListener" where
  "formMatchCase caseExpr caseCtx s =
     (let (labelId, s1) = getId caseCtx s;
          (elimId, s2) = getId caseCtx s1;
          name = (case variantMatch caseCtx of
                    Some vm \<Rightarrow> (case variantParam vm of Some prm \<Rightarrow> prm | None \<Rightarrow> ''_'')
                  | None \<Rightarrow> ''_'');
          (paramId, s3) = getId caseCtx s2;
          params = [\<lparr>param_id = paramId, param_name = name\<rparr>];
          label = (case variantMatch caseCtx of Some vm \<Rightarrow> variantLabel vm | None \<Rightarrow> ''_'');
          labelStr = ExStr labelId label;
          elim = ExLambda elimId params QDef caseExpr
      in ([labelStr, elim], s3))"

fun formMatchCases ::
  "(QuintEx \<times> MatchSumCaseContext) list \<Rightarrow> QuintEx list \<Rightarrow> ToIrListener \<Rightarrow> QuintEx list \<times> ToIrListener" where
  "formMatchCases [] acc s = (acc, s)"
| "formMatchCases ((caseExpr, caseCtx) # rest) acc s =
     (let (c, s') = formMatchCase caseExpr caseCtx s in formMatchCases rest (acc @ c) s')"

definition exitMatchSumExpr :: "MatchSumExprContext \<Rightarrow> ToIrListener \<Rightarrow> ToIrListener" where
  "exitMatchSumExpr ctx s =
     (let (matchId, s1) = getId ctx s;
          (exprs, s2) = popManyExprs ctx (length (matchCase ctx) + 1) s1;
          (expr, exprs') = (case exprs of e # es \<Rightarrow> (e, es) | [] \<Rightarrow> (ExUndefined, []));
          (cases, s3) = formMatchCases (zip exprs' (matchCase ctx)) [] s2
      in pushExpr (ExApp matchId ''matchVariant'' (expr # cases)) s3)"

section \<open>Types\<close>

definition exitTypeInt :: "'a ParserRuleContext_scheme \<Rightarrow> ToIrListener \<Rightarrow> ToIrListener" where
  "exitTypeInt ctx s = (let (i, s1) = getId ctx s in s1\<lparr>typeStack := typeStack s1 @ [TInt (Some i)]\<rparr>)"

definition exitTypeBool :: "'a ParserRuleContext_scheme \<Rightarrow> ToIrListener \<Rightarrow> ToIrListener" where
  "exitTypeBool ctx s = (let (i, s1) = getId ctx s in s1\<lparr>typeStack := typeStack s1 @ [TBool (Some i)]\<rparr>)"

definition exitTypeStr :: "'a ParserRuleContext_scheme \<Rightarrow> ToIrListener \<Rightarrow> ToIrListener" where
  "exitTypeStr ctx s = (let (i, s1) = getId ctx s in s1\<lparr>typeStack := typeStack s1 @ [TStr (Some i)]\<rparr>)"

text \<open>
  \<^verbatim>\<open>exitRow\<close>: \<^verbatim>\<open>compact(zipWith(names, elemTypes, ...))\<close> keeps the pairs in which both the
  name and the type are defined.
\<close>

definition exitRow :: "RowContext \<Rightarrow> ToIrListener \<Rightarrow> ToIrListener" where
  "exitRow ctx s =
     (let names = rowLabel ctx;
          (elemTypes, s1) = popManyTypes ctx (row_n_type ctx) s;
          fields = map (\<lambda>(name, elemType). RowField name elemType) (zip names elemTypes);
          other = (case rowVar ctx of Some v \<Rightarrow> RowVar v | None \<Rightarrow> RowEmpty)
      in s1\<lparr>rowStack := rowStack s1 @ [RowRow fields other]\<rparr>)"

definition exitTypeRec :: "'a ParserRuleContext_scheme \<Rightarrow> ToIrListener \<Rightarrow> ToIrListener" where
  "exitTypeRec ctx s =
     (let (row, s1) = popRow s;
          (i, s2) = getId ctx s1
      in s2\<lparr>typeStack := typeStack s2 @ [TRec (Some i) row]\<rparr>)"

section \<open>The tree walk\<close>

text \<open>
  The parser's walk calls one \<^verbatim>\<open>exit...\<close> method per completed construct, children first
  and from left to right.  A walk is the list of these calls; it stops at the first
  exception.  The rules are the ones modelled above.
\<close>

datatype Rule =
    ExitModule ModuleContext
  | ExitOperDef OperDefContext
  | ExitAssume ParserRuleContext
  | ExitTypeAbstractDef TypeDefContext
  | ExitTypeAliasDef TypeDefContext
  | ExitTypeSumVariant TypeSumVariantContext
  | ExitTypeSumDef TypeSumDefContext
  | ExitLiteralOrId LiteralOrIdContext
  | ExitArgList ArgListContext
  | ExitOperApp OperAppContext
  | ExitDotCall DotCallContext
  | ExitLambdaUnsugared LambdaContext
  | ExitLambdaTupleSugar LambdaContext
  | ExitIdentOrHole IdentOrHoleContext
  | ExitParameter ParserRuleContext
  | ExitRecElem RecElemContext
  | ExitRecord RecordContext
  | ExitUminus ParserRuleContext
  | ExitPlusMinus PlusMinusContext
  | ExitMatchSumExpr MatchSumExprContext
  | ExitTypeInt ParserRuleContext
  | ExitTypeBool ParserRuleContext
  | ExitTypeStr ParserRuleContext
  | ExitRow RowContext
  | ExitTypeRec ParserRuleContext

fun step :: "Rule \<Rightarrow> ToIrListener \<Rightarrow> JsError + ToIrListener" where
  "step (ExitModule ctx) s = Inr (exitModule ctx s)"
| "step (ExitOperDef ctx) s = Inr (exitOperDef ctx s)"
| "step (ExitAssume ctx) s = Inr (exitAssume ctx s)"
| "step (ExitTypeAbstractDef ctx) s = exitTypeAbstractDef ctx s"
| "step (ExitTypeAliasDef ctx) s = exitTypeAliasDef ctx s"
| "step (ExitTypeSumVariant ctx) s = Inr (exitTypeSumVariant ctx s)"
| "step (ExitTypeSumDef ctx) s = exitTypeSumDef ctx s"
| "step (ExitLiteralOrId ctx) s = exitLiteralOrId ctx s"
| "step (ExitArgList ctx) s = Inr (exitArgList ctx s)"
| "step (ExitOperApp ctx) s = Inr (exitOperApp ctx s)"
| "step (ExitDotCall ctx) s = exitDotCall ctx s"
| "step (ExitLambdaUnsugared ctx) s = Inr (exitLambdaUnsugared ctx s)"
| "step (ExitLambdaTupleSugar ctx) s = Inr (exitLambdaTupleSugar ctx s)"
| "step (ExitIdentOrHole ctx) s = exitIdentOrHole ctx s"
| "step (ExitParameter ctx) s = Inr (exitParameter ctx s)"
| "step (ExitRecElem ctx) s = Inr (exitRecElem ctx s)"
| "step (ExitRecord ctx) s = exitRecord ctx s"
| "step (ExitUminus ctx) s = Inr (exitUminus ctx s)"
| "step (ExitPlusMinus ctx) s = Inr (exitPlusMinus ctx s)"
| "step (ExitMatchSumExpr ctx) s = Inr (exitMatchSumExpr ctx s)"
| "step (ExitTypeInt ctx) s = Inr (exitTypeInt ctx s)"
| "step (ExitTypeBool ctx) s = Inr (exitTypeBool ctx s)"
| "step (ExitTypeStr ctx) s = Inr (exitTypeStr ctx s)"
| "step (ExitRow ctx) s = Inr (exitRow ctx s)"
| "step (ExitTypeRec ctx) s = Inr (exitTypeRec ctx s)"

fun walk :: "Rule list \<Rightarrow> ToIrListener \<Rightarrow> JsError + ToIrListener" where
  "walk [] s = Inr s"
| "walk (r # rs) s = (case step r s of Inl err \<Rightarrow> Inl err | Inr s' \<Rightarrow> walk rs s')"

section \<open>Identifiers of a tree\<close>

fun typeIds :: "QuintType \<Rightarrow> int list"
  and rowIds :: "Row \<Rightarrow> int list"
  and fieldIds :: "RowField \<Rightarrow> int list" where
  "typeIds (TInt i) = (case i of Some j \<Rightarrow> [j] | None \<Rightarrow> [])"
| "typeIds (TBool i) = (case i of Some j \<Rightarrow> [j] | None \<Rightarrow> [])"
| "typeIds (TStr i) = (case i of Some j \<Rightarrow> [j] | None \<Rightarrow> [])"
| "typeIds (TConst i n) = (case i of Some j \<Rightarrow> [j] | None \<Rightarrow> [])"
| "typeIds (TVar i n) = (case i of Some j \<Rightarrow> [j] | None \<Rightarrow> [])"
| "typeIds (TSet i t) = (case i of Some j \<Rightarrow> [j] | None \<Rightarrow> []) @ typeIds t"
| "typeIds (TList i t) = (case i of Some j \<Rightarrow> [j] | None \<Rightarrow> []) @ typeIds t"
| "typeIds (TFun i a r) = (case i of Some j \<Rightarrow> [j] | None \<Rightarrow> []) @ typeIds a @ typeIds r"
| "typeIds (TOper i args r) = (case i of Some j \<Rightarrow> [j] | None \<Rightarrow> []) @ concat (map typeIds args) @ typeIds r"
| "typeIds (TTup i r) = (case i of Some j \<Rightarrow> [j] | None \<Rightarrow> []) @ rowIds r"
| "typeIds (TRec i r) = (case i of Some j \<Rightarrow> [j] | None \<Rightarrow> []) @ rowIds r"
| "typeIds (TSum i r) = (case i of Some j \<Rightarrow> [j] | None \<Rightarrow> []) @ rowIds r"
| "rowIds RowEmpty = []"
| "rowIds (RowVar v) = []"
| "rowIds (RowRow fs other) = concat (map fieldIds fs) @ rowIds other"
| "fieldIds (RowField n t) = typeIds t"

fun exIds :: "QuintEx \<Rightarrow> int list"
  and opDefIds :: "QuintOpDef \<Rightarrow> int list" where
  "exIds (ExName i n) = [i]"
| "exIds (ExBool i b) = [i]"
| "exIds (ExInt i v) = [i]"
| "exIds (ExStr i v) = [i]"
| "exIds (ExApp i opcode args) = i # concat (map exIds args)"
| "exIds (ExLambda i params q e) = i # map param_id params @ exIds e"
| "exIds (ExLet i d e) = i # opDefIds d @ exIds e"
| "exIds ExUndefined = []"
| "opDefIds (OpDef i n q e t) = i # exIds e @ (case t of Some ty \<Rightarrow> typeIds ty | None \<Rightarrow> [])"

fun declIds :: "QuintDeclaration \<Rightarrow> int list" where
  "declIds (DeclDef d) = opDefIds d"
| "declIds (DeclConst i n t) = i # typeIds t"
| "declIds (DeclVar i n t) = i # typeIds t"
| "declIds (DeclAssume i n e) = i # exIds e"
| "declIds (DeclTypeDef i n t) = i # (case t of Some ty \<Rightarrow> typeIds ty | None \<Rightarrow> [])"

definition moduleIds :: "QuintModule \<Rightarrow> int list" where
  "moduleIds m = mod_id m # concat (map declIds (declarations m))"

section \<open>Reference descriptions of the lowered forms\<close>

text \<open>
  The accessors \<^verbatim>\<open>_1\<close> to \<^verbatim>\<open>_99\<close>, read as the specification words them: the number
  \<open>n\<close> between 1 and 99 whose decimal numeral follows the underscore.
\<close>

definition tupleAccessorIndex :: "string \<Rightarrow> nat option" where
  "tupleAccessorIndex name = find (\<lambda>n. name = CHR ''_'' # digitsOf n) [1..<100]"

text \<open>
  The lowered form of \<^verbatim>\<open>e.f\<close> over the callee \<open>e\<close>: the literal carries the identifier \<open>i\<close>
  and the application the next one.
\<close>

definition dottedAccess :: "int \<Rightarrow> QuintEx \<Rightarrow> string \<Rightarrow> QuintEx" where
  "dottedAccess i callee f =
     (case tupleAccessorIndex f of
        Some n \<Rightarrow> ExApp (i + 1) ''item'' [callee, ExInt i (int n)]
      | None \<Rightarrow> ExApp (i + 1) ''field'' [callee, ExStr i f])"

text \<open>
  Record literals.  An element of a literal is a pair \<^verbatim>\<open>name: value\<close> (with the identifier
  of the name's string literal) or a spread \<^verbatim>\<open>...expr\<close>; \<open>wrappedRecElem\<close> is the temporary
  container in which \<^verbatim>\<open>exitRecElem\<close> hands an element to \<^verbatim>\<open>exitRecord\<close>.  \<open>recArgs\<close> is the
  flattened list of names and values; \<open>withChain i r elems\<close> folds \<^verbatim>\<open>with\<close> over the pairs
  from left to right, starting from \<open>r\<close>, the applications numbered from \<open>i\<close> on.
\<close>

datatype RecElem =
    FieldElem int string QuintEx
  | SpreadElem QuintEx

fun wrappedRecElem :: "RecElem \<Rightarrow> QuintEx" where
  "wrappedRecElem (FieldElem i n v) = ExApp 0 ''Tup'' [ExStr i n, v]"
| "wrappedRecElem (SpreadElem e) = ExApp 0 ''Tup'' [e]"

fun spreadsOf :: "RecElem list \<Rightarrow> QuintEx list" where
  "spreadsOf [] = []"
| "spreadsOf (FieldElem i n v # es) = spreadsOf es"
| "spreadsOf (SpreadElem e # es) = e # spreadsOf es"

fun recArgs :: "RecElem list \<Rightarrow> QuintEx list" where
  "recArgs [] = []"
| "recArgs (FieldElem i n v # es) = ExStr i n # v # recArgs es"
| "recArgs (SpreadElem e # es) = recArgs es"

fun withChain :: "int \<Rightarrow> QuintEx \<Rightarrow> RecElem list \<Rightarrow> QuintEx" where
  "withChain i r [] = r"
| "withChain i r (FieldElem fi n v # es) = withChain (i + 1) (ExApp i ''with'' [r, ExStr fi n, v]) es"
| "withChain i r (SpreadElem e # es) = withChain i r es"

text \<open>The pairs of a literal, each a name and its value.\<close>

fun pairsOf :: "RecElem list \<Rightarrow> QuintEx list list" where
  "pairsOf [] = []"
| "pairsOf (FieldElem i n v # es) = [ExStr i n, v] # pairsOf es"
| "pairsOf (SpreadElem e # es) = pairsOf es"

text \<open>
  The walk of a record literal: for each element the rules of its value and then
  \<^verbatim>\<open>exitRecElem\<close>; \<^verbatim>\<open>exitRecord\<close> comes last.  An element is given as the rules of its
  value and its context.  \<open>elemsLowered es s\<close> holds when, from the listener at which each
  element is reached, the rules of its value end without an exception and leave the
  expression stack as it was with one more element on top, the lowered value.
  \<open>loweredElems es s\<close> lists the elements with these lowered values; the name of a pair
  carries the identifier that follows those issued for its value.
\<close>

fun recElemRules :: "(Rule list \<times> RecElemContext) list \<Rightarrow> Rule list" where
  "recElemRules [] = []"
| "recElemRules ((vr, c) # es) = vr @ ExitRecElem c # recElemRules es"

fun elemsLowered :: "(Rule list \<times> RecElemContext) list \<Rightarrow> ToIrListener \<Rightarrow> bool" where
  "elemsLowered [] s = True"
| "elemsLowered ((vr, c) # es) s =
     (case walk vr s of
        Inl err \<Rightarrow> False
      | Inr s1 \<Rightarrow>
          length (exprStack s1) > 0 \<and> butlast (exprStack s1) = exprStack s
          \<and> elemsLowered es (exitRecElem c s1))"

fun loweredElems :: "(Rule list \<times> RecElemContext) list \<Rightarrow> ToIrListener \<Rightarrow> RecElem list" where
  "loweredElems [] s = []"
| "loweredElems ((vr, c) # es) s =
     (case walk vr s of
        Inl err \<Rightarrow> []
      | Inr s1 \<Rightarrow>
          (case simpleId c of
             Some f \<Rightarrow> FieldElem (idGen s1 + 1) f (last (exprStack s1))
           | None \<Rightarrow> SpreadElem (last (exprStack s1)))
            # loweredElems es (exitRecElem c s1))"

text \<open>
  Variant matches.  The label and the parameter name of a case (\<^verbatim>\<open>_\<close> for a wildcard case
  and for a case that binds no name), and the arguments that follow the scrutinee: per
  case, in order, the label string and the one-parameter lambda over the case's body,
  their identifiers numbered from \<open>i\<close> on.
\<close>

definition caseLabel :: "MatchSumCaseContext \<Rightarrow> string" where
  "caseLabel c = (case variantMatch c of Some vm \<Rightarrow> variantLabel vm | None \<Rightarrow> ''_'')"

definition caseParamName :: "MatchSumCaseContext \<Rightarrow> string" where
  "caseParamName c =
     (case variantMatch c of
        Some vm \<Rightarrow> (case variantParam vm of Some x \<Rightarrow> x | None \<Rightarrow> ''_'')
      | None \<Rightarrow> ''_'')"

fun matchCaseArgs :: "int \<Rightarrow> (QuintEx \<times> MatchSumCaseContext) list \<Rightarrow> QuintEx list" where
  "matchCaseArgs i [] = []"
| "matchCaseArgs i ((body, c) # rest) =
     ExStr i (caseLabel c)
       # ExLambda (i + 1) [\<lparr>param_id = i + 2, param_name = caseParamName c\<rparr>] QDef body
       # matchCaseArgs (i + 3) rest"

text \<open>
  Sum types.  \<open>sumConstructors i T fields\<close> lists, in the order of the fields, the
  constructor of each variant of the type constant \<open>T\<close>, the identifiers numbered from
  \<open>i\<close> on: a \<^verbatim>\<open>val\<close> applying \<^verbatim>\<open>variant\<close> to the label and the empty record, annotated \<open>T\<close>,
  when the field's type is the unit type; otherwise a \<^verbatim>\<open>def\<close> whose body is a lambda over
  the mangled parameter applying \<^verbatim>\<open>variant\<close> to the label and the parameter, annotated
  with the operator type from the payload type to \<open>T\<close>.  A field with a payload type needs
  the type child of its variant's context (\<open>typeChildPresent\<close>).
\<close>

fun sumConstructors :: "int \<Rightarrow> QuintType \<Rightarrow> RowField list \<Rightarrow> QuintOpDef list" where
  "sumConstructors i T [] = []"
| "sumConstructors i T (RowField v p # fs) =
     (if isUnitType p
      then OpDef (i + 3) v QVal
             (ExApp (i + 2) ''variant'' [ExStr i v, ExApp (i + 1) ''Rec'' []]) (Some T)
             # sumConstructors (i + 4) T fs
      else OpDef (i + 5) v QDef
             (ExLambda (i + 4) [\<lparr>param_id = i + 1, param_name = ''__'' @ v @ ''Param''\<rparr>] QDef
                (ExApp (i + 3) ''variant'' [ExStr i v, ExName (i + 2) (''__'' @ v @ ''Param'')]))
             (Some (TOper None [p] T))
             # sumConstructors (i + 6) T fs)"

fun typeChildPresent :: "RowField \<Rightarrow> TypeSumVariantContext \<Rightarrow> bool" where
  "typeChildPresent (RowField v p) vc = (isUnitType p \<or> variant_type vc \<noteq> None)"

text \<open>
  The walk of a sum-type definition: for each variant the rules of its payload type
  (none when the variant has no payload) and then \<^verbatim>\<open>exitTypeSumVariant\<close>;
  \<^verbatim>\<open>exitTypeSumDef\<close> comes last.  A variant is given as the rules of its payload and its
  context.  \<open>payloadsLowered vs s\<close> holds when each variant is reached with an empty type
  stack and the rules of its payload end without an exception, leave the variants
  collected so far as they are and leave on the type stack the lowered payload and
  nothing else, or nothing at all when the variant has no payload.  \<open>variantFields vs s\<close>
  lists the fields of the variants: the label with the lowered payload, or with the unit
  type when there is no payload.
\<close>

fun variantRules :: "(Rule list \<times> TypeSumVariantContext) list \<Rightarrow> Rule list" where
  "variantRules [] = []"
| "variantRules ((pr, vc) # vs) = pr @ ExitTypeSumVariant vc # variantRules vs"

fun payloadsLowered :: "(Rule list \<times> TypeSumVariantContext) list \<Rightarrow> ToIrListener \<Rightarrow> bool" where
  "payloadsLowered [] s = True"
| "payloadsLowered ((pr, vc) # vs) s =
     (length (typeStack s) = 0
      \<and> (case walk pr s of
            Inl err \<Rightarrow> False
          | Inr s1 \<Rightarrow>
              variantStack s1 = variantStack s
              \<and> length (typeStack s1) = (case variant_type vc of None \<Rightarrow> 0 | Some tc \<Rightarrow> 1)
              \<and> payloadsLowered vs (exitTypeSumVariant vc s1)))"

fun variantFields :: "(Rule list \<times> TypeSumVariantContext) list \<Rightarrow> ToIrListener \<Rightarrow> RowField list" where
  "variantFields [] s = []"
| "variantFields ((pr, vc) # vs) s =
     (case walk pr s of
        Inl err \<Rightarrow> []
      | Inr s1 \<Rightarrow>
          RowField (ctx_text (sumLabel vc))
            (case variant_type vc of
               None \<Rightarrow> unitType (idGen s1 + 1)
             | Some tc \<Rightarrow> last (typeStack s1))
            # variantFields vs (exitTypeSumVariant vc s1))"

text \<open>
  Placeholders.  What the recovery helpers build when the identifier issued last is \<open>i\<close>:
  the expression \<^verbatim>\<open>val __undefinedExprGenerated = true; __undefinedExprGenerated\<close>, a
  parameter and a type variable named after their purpose.
\<close>

definition undefinedExprAt :: "int \<Rightarrow> QuintEx" where
  "undefinedExprAt i =
     ExLet (i + 1) (OpDef (i + 2) ''__undefinedExprGenerated'' QVal (ExBool (i + 3) True) None)
       (ExName (i + 4) ''__undefinedExprGenerated'')"

definition undefinedParamAt :: "int \<Rightarrow> QuintLambdaParameter" where
  "undefinedParamAt i = \<lparr>param_id = i + 1, param_name = ''__undefinedParam'' @ showInt (i + 1)\<rparr>"

definition undefinedTypeAt :: "int \<Rightarrow> QuintType" where
  "undefinedTypeAt i = TVar (Some (i + 1)) ''undefinedType''"

text \<open>
  The identifiers of the output: those of every module produced, and among them the ones
  that have no entry in the source map.
\<close>

definition outputIds :: "ToIrListener \<Rightarrow> int list" where
  "outputIds st = concat (map moduleIds (modules st))"

definition unmappedIds :: "ToIrListener \<Rightarrow> int list" where
  "unmappedIds st = filter (\<lambda>i. sourceMap st i = None) (outputIds st)"

text \<open>Views of a listener, for stating the outcome of a walk.\<close>

definition exprsAndErrors :: "ToIrListener \<Rightarrow> QuintEx list \<times> QuintError list" where
  "exprsAndErrors st = (exprStack st, errors st)"

definition declsAndErrors :: "ToIrListener \<Rightarrow> QuintDeclaration list \<times> QuintError list" where
  "declsAndErrors st = (declarationStack st, errors st)"

definition idReport :: "ToIrListener \<Rightarrow> int list \<times> int list" where
  "idReport st = (outputIds st, unmappedIds st)"

definition stackAndLastId :: "ToIrListener \<Rightarrow> QuintEx list \<times> int" where
  "stackAndLastId st = (exprStack st, idGen st)"

definition outputAndErrors :: "ToIrListener \<Rightarrow> QuintDeclaration list list \<times> QuintError list" where
  "outputAndErrors st = (map declarations (modules st), errors st)"

text \<open>
  Tuple-parameter lambdas.  \<open>numberFrom i k ps\<close> pairs each parameter with its index
  (counted from \<open>k\<close>) and with the first of the four identifiers of its binding (counted
  from \<open>i\<close>, in declaration order).  \<open>bindOutermostFirst fresh bs body\<close> nests one
  \<^verbatim>\<open>let p = fresh._(index + 1)\<close> per entry of \<open>bs\<close> around the body, the binding of the
  first entry outermost.
\<close>

fun numberFrom :: "int \<Rightarrow> nat \<Rightarrow> QuintLambdaParameter list \<Rightarrow> (int \<times> nat \<times> QuintLambdaParameter) list" where
  "numberFrom i k [] = []"
| "numberFrom i k (p # ps) = (i, k, p) # numberFrom (i + 4) (Suc k) ps"

fun bindOutermostFirst :: "string \<Rightarrow> (int \<times> nat \<times> QuintLambdaParameter) list \<Rightarrow> QuintEx \<Rightarrow> QuintEx" where
  "bindOutermostFirst fresh [] body = body"
| "bindOutermostFirst fresh ((i, k, p) # bs) body =
     ExLet i
       (OpDef (param_id p) (param_name p) QPureval
          (ExApp (i + 1) ''item'' [ExName (i + 2) fresh, ExInt (i + 3) (int k + 1)]) None)
       (bindOutermostFirst fresh bs body)"

section \<open>Sample inputs\<close>

text \<open>
  Contexts for small programs, used to run the rules on concrete inputs.  Positions play
  no part in what follows, so every sample context sits at the same token.
\<close>

definition sampleToken :: Token where
  "sampleToken = \<lparr>tok_line = 1, charPositionInLine = 0, startIndex = 0, stopIndex = 0\<rparr>"

definition ctxOf :: "string \<Rightarrow> ParserRuleContext" where
  "ctxOf t = \<lparr>ctx_start = sampleToken, ctx_stop = Some sampleToken, ctx_text = t\<rparr>"

definition nameLit :: "string \<Rightarrow> LiteralOrIdContext" where
  "nameLit n = \<lparr>ctx_start = sampleToken, ctx_stop = Some sampleToken, ctx_text = n,
                 lit_qualId = Some n, lit_INT = None, lit_BOOL = None, lit_STRING = None\<rparr>"

definition intLit :: "string \<Rightarrow> LiteralOrIdContext" where
  "intLit n = \<lparr>ctx_start = sampleToken, ctx_stop = Some sampleToken, ctx_text = n,
                lit_qualId = None, lit_INT = Some n, lit_BOOL = None, lit_STRING = None\<rparr>"

definition fieldCtx :: "string \<Rightarrow> RecElemContext" where
  "fieldCtx n = \<lparr>ctx_start = sampleToken, ctx_stop = Some sampleToken, ctx_text = n,
                   simpleId = Some n\<rparr>"

definition spreadCtx :: RecElemContext where
  "spreadCtx = \<lparr>ctx_start = sampleToken, ctx_stop = Some sampleToken, ctx_text = ''...'',
                  simpleId = None\<rparr>"

definition recordOf :: "nat \<Rightarrow> RecordContext" where
  "recordOf n = \<lparr>ctx_start = sampleToken, ctx_stop = Some sampleToken, ctx_text = ''{...}'',
                  n_recElem = n\<rparr>"

definition dotAccess :: "string \<Rightarrow> DotCallContext" where
  "dotAccess f = \<lparr>ctx_start = sampleToken, ctx_stop = Some sampleToken, ctx_text = ''t.'' @ f,
                   dot_has_argList = False, nameAfterDot = f, dot_LPAREN = False\<rparr>"

text \<open>
  A listener whose expression stack holds the given expressions, the identifier issued
  last being \<open>lastId\<close>; \<open>afterName\<close> has lowered the name \<^verbatim>\<open>t\<close> and nothing else.
\<close>

definition listenerWith :: "QuintEx list \<Rightarrow> int \<Rightarrow> ToIrListener" where
  "listenerWith es lastId = (newListener ''sample.qnt'' lastId)\<lparr>exprStack := es\<rparr>"

definition afterName :: ToIrListener where
  "afterName = listenerWith [ExName 1 ''t''] 1"

definition moduleCtx :: "string \<Rightarrow> ModuleContext" where
  "moduleCtx n = \<lparr>ctx_start = sampleToken, ctx_stop = Some sampleToken, ctx_text = ''module '' @ n,
                   mod_qualId = n, DOCCOMMENT = []\<rparr>"

definition matchCaseCtx :: "MatchSumVariantContext option \<Rightarrow> MatchSumCaseContext" where
  "matchCaseCtx vm = \<lparr>ctx_start = sampleToken, ctx_stop = Some sampleToken, ctx_text = ''case'',
                       variantMatch = vm\<rparr>"

definition matchCtx :: "MatchSumCaseContext list \<Rightarrow> MatchSumExprContext" where
  "matchCtx cs = \<lparr>ctx_start = sampleToken, ctx_stop = Some sampleToken, ctx_text = ''match'',
                   matchCase = cs\<rparr>"

definition variantCtx :: "string \<Rightarrow> string option \<Rightarrow> TypeSumVariantContext" where
  "variantCtx label payload =
     \<lparr>ctx_start = sampleToken, ctx_stop = Some sampleToken, ctx_text = label,
      sumLabel = ctxOf label, variant_type = map_option ctxOf payload\<rparr>"

definition sumDefCtx :: "string \<Rightarrow> TypeSumVariantContext list \<Rightarrow> TypeSumDefContext" where
  "sumDefCtx n vs = \<lparr>ctx_start = sampleToken, ctx_stop = Some sampleToken, ctx_text = ''type '' @ n,
                      typeName = n, typeSumVariant = vs\<rparr>"

definition emptyRowCtx :: RowContext where
  "emptyRowCtx = \<lparr>ctx_start = sampleToken, ctx_stop = Some sampleToken, ctx_text = [],
                   rowLabel = [], row_n_type = 0, rowVar = None\<rparr>"

definition identCtx :: "string \<Rightarrow> IdentOrHoleContext" where
  "identCtx n = \<lparr>ctx_start = sampleToken, ctx_stop = Some sampleToken, ctx_text = n,
                  hole_qualId = Some n\<rparr>"

definition lambdaCtx :: "nat \<Rightarrow> LambdaContext" where
  "lambdaCtx n = \<lparr>ctx_start = sampleToken, ctx_stop = Some sampleToken, ctx_text = ''lambda'',
                   lambda_n_parameter = n\<rparr>"

definition typeDefCtx :: "string \<Rightarrow> TypeDefContext" where
  "typeDefCtx n = \<lparr>ctx_start = sampleToken, ctx_stop = Some sampleToken, ctx_text = ''type '' @ n,
                    typedef_qualId = n\<rparr>"

definition valDefCtx :: "string \<Rightarrow> OperDefContext" where
  "valDefCtx n = \<lparr>ctx_start = sampleToken, ctx_stop = Some sampleToken, ctx_text = ''val '' @ n,
                   normalCallName = n, operdef_n_parameter = 0, operdef_n_type = 0,
                   operdef_has_expr = True, operdef_qualifier = Some ''val''\<rparr>"

text \<open>The walk of \<^verbatim>\<open>module M { val x = { a: 1, b: { ...r, ...s } } }\<close>.\<close>

definition nestedSpreadsWalk :: "Rule list" where
  "nestedSpreadsWalk =
     [ExitLiteralOrId (intLit ''1''), ExitRecElem (fieldCtx ''a''),
      ExitLiteralOrId (nameLit ''r''), ExitRecElem spreadCtx,
      ExitLiteralOrId (nameLit ''s''), ExitRecElem spreadCtx,
      ExitRecord (recordOf 2),
      ExitRecElem (fieldCtx ''b''),
      ExitRecord (recordOf 2),
      ExitOperDef (valDefCtx ''x''),
      ExitModule (moduleCtx ''M'')]"

text \<open>The elements of \<^verbatim>\<open>{ ...r, x: 1 }\<close>, of \<^verbatim>\<open>{ x: 1, y: b }\<close> and of \<^verbatim>\<open>{ ...r, ...s, x: 1 }\<close>.\<close>

definition spreadThenField :: "(Rule list \<times> RecElemContext) list" where
  "spreadThenField =
     [([ExitLiteralOrId (nameLit ''r'')], spreadCtx),
      ([ExitLiteralOrId (intLit ''1'')], fieldCtx ''x'')]"

definition twoFields :: "(Rule list \<times> RecElemContext) list" where
  "twoFields =
     [([ExitLiteralOrId (intLit ''1'')], fieldCtx ''x''),
      ([ExitLiteralOrId (nameLit ''b'')], fieldCtx ''y'')]"

definition twoSpreadsThenField :: "(Rule list \<times> RecElemContext) list" where
  "twoSpreadsThenField =
     [([ExitLiteralOrId (nameLit ''r'')], spreadCtx),
      ([ExitLiteralOrId (nameLit ''s'')], spreadCtx),
      ([ExitLiteralOrId (intLit ''1'')], fieldCtx ''x'')]"


text \<open>The variants of \<^verbatim>\<open>type t = A | B\<close>.\<close>

definition twoPlainVariants :: "(Rule list \<times> TypeSumVariantContext) list" where
  "twoPlainVariants = [([], variantCtx ''A'' None), ([], variantCtx ''B'' None)]"

text \<open>The walk of \<^verbatim>\<open>{ ...{ ...r, ...s } }\<close>, the callee of \<^verbatim>\<open>{ ...{ ...r, ...s } }._1\<close>.\<close>

definition spreadOfSpreadsWalk :: "Rule list" where
  "spreadOfSpreadsWalk =
     [ExitLiteralOrId (nameLit ''r''), ExitRecElem spreadCtx,
      ExitLiteralOrId (nameLit ''s''), ExitRecElem spreadCtx,
      ExitRecord (recordOf 2),
      ExitRecElem spreadCtx,
      ExitRecord (recordOf 1)]"

text \<open>The walk of \<^verbatim>\<open>module M { assume a = { ...r, ...s } }\<close>.\<close>

definition assumeTwoSpreadsWalk :: "Rule list" where
  "assumeTwoSpreadsWalk =
     [ExitIdentOrHole (identCtx ''a''),
      ExitLiteralOrId (nameLit ''r''), ExitRecElem spreadCtx,
      ExitLiteralOrId (nameLit ''s''), ExitRecElem spreadCtx,
      ExitRecord (recordOf 2),
      ExitAssume (ctxOf ''assume''),
      ExitModule (moduleCtx ''M'')]"

text \<open>An operator application \<^verbatim>\<open>f(...)\<close> with an argument list.\<close>

definition operAppCtx :: "string \<Rightarrow> OperAppContext" where
  "operAppCtx f = \<lparr>ctx_start = sampleToken, ctx_stop = Some sampleToken, ctx_text = f @ ''(...)'',
                    operapp_name = f, operapp_has_argList = True\<rparr>"

section \<open>Basic facts\<close>

declare digitsOf.simps [simp del]

lemma getId_eq:
  "getId ctx s =
     (idGen s + 1,
      s\<lparr>idGen := idGen s + 1,
        sourceMap := (sourceMap s)(idGen s + 1 \<mapsto> loc (sourceLocation s) ctx)\<rparr>)"
  by (simp add: getId_def nextId_def)

lemma pop_snoc: "pop (xs @ [x]) = (Some x, xs)"
  by (simp add: pop_def)

lemma pop_Nil: "pop [] = (None, [])"
  by (simp add: pop_def)

lemma popExprOrUndefined_snoc:
  "exprStack s = rest @ [e] \<Longrightarrow> e \<noteq> ExUndefined \<Longrightarrow>
     popExprOrUndefined ctx s = (e, s\<lparr>exprStack := rest\<rparr>)"
  by (simp add: popExprOrUndefined_def pop_snoc)

lemma popExprOrUndefined_missing:
  assumes "exprStack s = [] \<or> last (exprStack s) = ExUndefined"
  shows "popExprOrUndefined ctx s = undefinedExpr ctx (s\<lparr>exprStack := butlast (exprStack s)\<rparr>)"
  using assms by (auto simp: popExprOrUndefined_def pop_def)

lemma undefinedExpr_result:
  "\<exists>s'. undefinedExpr ctx s = (undefinedExprAt (idGen s), s')
        \<and> idGen s' = idGen s + 4 \<and> errors s' = errors s \<and> exprStack s' = exprStack s
        \<and> console s' = console s
             @ [ConsoleDebug (''[DEBUG] generating undefined expr to fill hole in: '' @ ctx_text ctx)]"
  by (simp add: undefinedExpr_def undefinedExprAt_def consoleDebug_def getId_eq Let_def)

lemma walk_append:
  "walk (a @ b) s = (case walk a s of Inl err \<Rightarrow> Inl err | Inr s1 \<Rightarrow> walk b s1)"
  by (induction a arbitrary: s) (simp_all split: sum.splits)

lemma walk_then_rule:
  assumes "walk rs s = Inr s1"
  shows "walk (rs @ [r]) s = step r s1"
  using assms by (simp add: walk_append split: sum.splits)

lemma digitsOf_one: "n < 10 \<Longrightarrow> digitsOf n = [char_of (48 + n)]"
  by (subst digitsOf.simps) simp

lemma digitsOf_two:
  assumes "10 \<le> n" and "n < 100"
  shows "digitsOf n = [char_of (48 + n div 10), char_of (48 + n mod 10)]"
proof -
  have "n div 10 < 10" using assms by simp
  then have "digitsOf (n div 10) = [char_of (48 + n div 10)]" by (rule digitsOf_one)
  then show ?thesis using assms by (subst digitsOf.simps) simp
qed

lemma of_char_zero: "(of_char (CHR ''0'') :: nat) = 48"
  by simp

lemma digit_char_props:
  assumes "k < 10"
  shows "isDigit (char_of (48 + k))"
    and "(of_char (char_of (48 + k) :: char) :: nat) = 48 + k"
    and "(char_of (48 + k) = CHR ''0'') = (k = 0)"
proof -
  show o: "(of_char (char_of (48 + k) :: char) :: nat) = 48 + k"
    using assms by simp
  then show "isDigit (char_of (48 + k))"
    using assms by (simp add: isDigit_def)
  show "(char_of (48 + k) = CHR ''0'') = (k = 0)"
  proof
    assume "char_of (48 + k) = CHR ''0''"
    then have "(of_char (char_of (48 + k) :: char) :: nat) = of_char (CHR ''0'')" by simp
    then show "k = 0" using o by simp
  next
    assume "k = 0"
    moreover have "char_of (of_char (CHR ''0'') :: nat) = CHR ''0''"
      by (rule char_of_char)
    ultimately show "char_of (48 + k) = CHR ''0''"
      by (simp only: of_char_zero add_0_right)
  qed
qed

lemma matchTupleAccessor_digitsOf:
  assumes "1 \<le> n" and "n \<le> 99"
  shows "matchTupleAccessor (CHR ''_'' # digitsOf n) = Some (digitsOf n)"
    and "BigInt (digitsOf n) = Some (int n)"
proof -
  consider (one) "n < 10" | (two) "10 \<le> n" "n < 100" using assms by linarith
  then have "matchTupleAccessor (CHR ''_'' # digitsOf n) = Some (digitsOf n)
      \<and> BigInt (digitsOf n) = Some (int n)"
  proof cases
    case one
    then show ?thesis
      using assms digit_char_props [of n]
      by (simp add: digitsOf_one matchTupleAccessor_def BigInt_def decimalValue_def)
  next
    case two
    have a: "n div 10 < 10" and b: "n mod 10 < 10" and c: "n div 10 \<noteq> 0"
      using two by simp_all
    have d: "int (n div 10) * 10 + int (n mod 10) = int n"
      by (metis of_nat_add of_nat_mult of_nat_numeral div_mult_mod_eq)
    show ?thesis
      using digit_char_props [OF a] digit_char_props [OF b] c d
      by (simp add: digitsOf_two [OF two] matchTupleAccessor_def BigInt_def decimalValue_def
          mult.commute)
  qed
  then show "matchTupleAccessor (CHR ''_'' # digitsOf n) = Some (digitsOf n)"
    and "BigInt (digitsOf n) = Some (int n)" by simp_all
qed

lemma isDigit_char_of:
  assumes "isDigit d"
  shows "char_of (48 + ((of_char d :: nat) - 48)) = d" and "(of_char d :: nat) - 48 < 10"
proof -
  have r: "48 \<le> (of_char d :: nat)" "(of_char d :: nat) \<le> 57"
    using assms by (simp_all add: isDigit_def)
  then have "48 + ((of_char d :: nat) - 48) = of_char d" by linarith
  then show "char_of (48 + ((of_char d :: nat) - 48)) = d" by simp
  show "(of_char d :: nat) - 48 < 10" using r by linarith
qed

lemma matchTupleAccessor_Some:
  assumes "matchTupleAccessor name = Some m"
  shows "\<exists>n. 1 \<le> n \<and> n \<le> 99 \<and> name = CHR ''_'' # digitsOf n"
proof -
  from assms consider
    (one) d1 where "name = [CHR ''_'', d1]" "isDigit d1" "d1 \<noteq> CHR ''0''"
  | (two) d1 d2 where "name = [CHR ''_'', d1, d2]" "isDigit d1" "d1 \<noteq> CHR ''0''" "isDigit d2"
    by (auto simp: matchTupleAccessor_def split: list.splits if_splits)
  then show ?thesis
  proof cases
    case one
    define n where "n = (of_char d1 :: nat) - 48"
    have "n < 10" and "char_of (48 + n) = d1"
      using isDigit_char_of [OF one(2)] by (simp_all add: n_def)
    moreover have "n \<noteq> 0"
      using one(3) \<open>char_of (48 + n) = d1\<close> digit_char_props(3) [OF \<open>n < 10\<close>] by simp
    ultimately show ?thesis
      using one(1) by (intro exI [of _ n]) (simp add: digitsOf_one)
  next
    case two
    define a where "a = (of_char d1 :: nat) - 48"
    define b where "b = (of_char d2 :: nat) - 48"
    have a: "a < 10" "char_of (48 + a) = d1"
      using isDigit_char_of [OF two(2)] by (simp_all add: a_def)
    have b: "b < 10" "char_of (48 + b) = d2"
      using isDigit_char_of [OF two(4)] by (simp_all add: b_def)
    have "a \<noteq> 0" using two(3) a(2) digit_char_props(3) [OF a(1)] by simp
    define n where "n = 10 * a + b"
    have n: "10 \<le> n" "n < 100" "n div 10 = a" "n mod 10 = b"
      using a(1) b(1) \<open>a \<noteq> 0\<close> by (simp_all add: n_def)
    show ?thesis
      using two(1) a(2) b(2) n
      by (intro exI [of _ n]) (simp add: digitsOf_two)
  qed
qed

lemma tupleAccessorIndex_Some:
  assumes "tupleAccessorIndex name = Some n"
  shows "matchTupleAccessor name = Some (digitsOf n)" and "BigInt (digitsOf n) = Some (int n)"
proof -
  from assms have "n \<in> set [1..<100]" and name: "name = CHR ''_'' # digitsOf n"
    by (auto simp: tupleAccessorIndex_def find_Some_iff)
  then have "1 \<le> n" "n \<le> 99" by simp_all
  then show "matchTupleAccessor name = Some (digitsOf n)" and "BigInt (digitsOf n) = Some (int n)"
    using matchTupleAccessor_digitsOf name by simp_all
qed

lemma tupleAccessorIndex_None:
  assumes "tupleAccessorIndex name = None"
  shows "matchTupleAccessor name = None"
proof (rule ccontr)
  assume "matchTupleAccessor name \<noteq> None"
  then obtain m where "matchTupleAccessor name = Some m" by auto
  then obtain n where "1 \<le> n" "n \<le> 99" "name = CHR ''_'' # digitsOf n"
    using matchTupleAccessor_Some by blast
  then have "\<exists>k\<in>set [1..<100]. name = CHR ''_'' # digitsOf k" by auto
  then show False using assms by (simp add: tupleAccessorIndex_def find_None_iff)
qed

lemmas sample_defs =
  sampleToken_def ctxOf_def nameLit_def intLit_def fieldCtx_def spreadCtx_def recordOf_def
  dotAccess_def afterName_def listenerWith_def newListener_def
  moduleCtx_def matchCaseCtx_def matchCtx_def variantCtx_def sumDefCtx_def emptyRowCtx_def
  identCtx_def lambdaCtx_def typeDefCtx_def valDefCtx_def

section \<open>Dotted access without parentheses\<close>

lemma exitDotCall_present:
  assumes "\<not> dot_LPAREN ctx" and "\<not> dot_has_argList ctx" and "exprStack s = rest @ [callee]"
    and "callee \<noteq> ExUndefined"
  shows "\<exists>s'. exitDotCall ctx s = Inr s'
          \<and> exprStack s' = rest @ [dottedAccess (idGen s + 1) callee (nameAfterDot ctx)]"
proof (cases "tupleAccessorIndex (nameAfterDot ctx)")
  case None
  then show ?thesis
    using assms(1,2) tupleAccessorIndex_None [OF None]
    by (simp add: exitDotCall_def popExprOrUndefined_snoc [OF assms(3,4)] getId_eq
        pushApplication_def dottedAccess_def Let_def)
next
  case (Some n)
  then show ?thesis
    using assms(1,2) tupleAccessorIndex_Some [OF Some]
    by (simp add: exitDotCall_def popExprOrUndefined_snoc [OF assms(3,4)] getId_eq
        pushApplication_def dottedAccess_def Let_def)
qed

lemma exitDotCall_missing:
  assumes "\<not> dot_LPAREN ctx" and "\<not> dot_has_argList ctx"
    and "exprStack s = [] \<or> last (exprStack s) = ExUndefined"
  shows "\<exists>s'. exitDotCall ctx s = Inr s'
          \<and> exprStack s' = butlast (exprStack s)
               @ [dottedAccess (idGen s + 5) (undefinedExprAt (idGen s)) (nameAfterDot ctx)]"
proof -
  obtain s1 where u: "undefinedExpr ctx (s\<lparr>exprStack := butlast (exprStack s)\<rparr>)
        = (undefinedExprAt (idGen s), s1)"
    and s1: "idGen s1 = idGen s + 4" "exprStack s1 = butlast (exprStack s)"
    using undefinedExpr_result [of ctx "s\<lparr>exprStack := butlast (exprStack s)\<rparr>"] by auto
  have p: "popExprOrUndefined ctx s = (undefinedExprAt (idGen s), s1)"
    using popExprOrUndefined_missing [OF assms(3), of ctx] u by simp
  show ?thesis
  proof (cases "tupleAccessorIndex (nameAfterDot ctx)")
    case None
    then show ?thesis
      using assms(1,2) tupleAccessorIndex_None [OF None] s1
      by (simp add: exitDotCall_def p getId_eq pushApplication_def dottedAccess_def Let_def)
  next
    case (Some n)
    then show ?thesis
      using assms(1,2) tupleAccessorIndex_Some [OF Some] s1
      by (simp add: exitDotCall_def p getId_eq pushApplication_def dottedAccess_def Let_def)
  qed
qed

text \<open>
  C10.  A dotted access without parentheses \<^verbatim>\<open>e.f\<close>.  When \<open>f\<close> is an underscore followed
  by the decimal numeral of a number \<open>n\<close> from 1 to 99, the access is replaced by the
  application of \<^verbatim>\<open>item\<close> to the callee and the integer literal \<open>n\<close>; for every other name
  it is replaced by the application of \<^verbatim>\<open>field\<close> to the callee and the name as a string
  literal (\<open>dottedAccess\<close>).  The callee is the lowered \<open>e\<close> on top of the expression stack;
  the literal takes the next identifier and the application the one after.  When the
  stack is empty, or its top is \<^verbatim>\<open>undefined\<close>, the callee is the placeholder expression,
  which takes four identifiers first, and the top of the stack, if any, is removed.
\<close>

theorem exitDotCall_item_or_field:
  assumes "\<not> dot_LPAREN ctx" and "\<not> dot_has_argList ctx"
  shows "(\<forall>rest callee. exprStack s = rest @ [callee] \<and> callee \<noteq> ExUndefined \<longrightarrow>
            (\<exists>s'. exitDotCall ctx s = Inr s'
                \<and> exprStack s' = rest @ [dottedAccess (idGen s + 1) callee (nameAfterDot ctx)]))
       \<and> (exprStack s = [] \<or> last (exprStack s) = ExUndefined \<longrightarrow>
            (\<exists>s'. exitDotCall ctx s = Inr s'
                \<and> exprStack s' = butlast (exprStack s)
                     @ [dottedAccess (idGen s + 5) (undefinedExprAt (idGen s)) (nameAfterDot ctx)]))"
  using exitDotCall_present [OF assms] exitDotCall_missing [OF assms] by blast

lemma tupleAccessorIndex_eq:
  "tupleAccessorIndex name =
     (case matchTupleAccessor name of None \<Rightarrow> None | Some m \<Rightarrow> map_option nat (BigInt m))"
proof (cases "tupleAccessorIndex name")
  case None
  then show ?thesis using tupleAccessorIndex_None by simp
next
  case (Some n)
  then show ?thesis using tupleAccessorIndex_Some [OF Some] by simp
qed

lemma tupleAccessorIndex_samples:
  "tupleAccessorIndex ''_1'' = Some 1"
  "tupleAccessorIndex ''_99'' = Some 99"
  "tupleAccessorIndex ''_0'' = None"
  "tupleAccessorIndex ''_100'' = None"
  "tupleAccessorIndex ''name'' = None"
  by (simp_all add: tupleAccessorIndex_eq matchTupleAccessor_def BigInt_def isDigit_def
      decimalValue_def)

lemma spreadOfSpreadsWalk_result:
  "map_sum id stackAndLastId (walk spreadOfSpreadsWalk (newListener ''sample.qnt'' 0))
     = Inr ([ExUndefined], 3)"
  by code_simp

text \<open>
  The accessors \<^verbatim>\<open>_1\<close>, \<^verbatim>\<open>_99\<close>, \<^verbatim>\<open>_0\<close>, \<^verbatim>\<open>_100\<close> and \<^verbatim>\<open>name\<close> after the name \<^verbatim>\<open>t\<close>, and
  \<^verbatim>\<open>{ ...{ ...r, ...s } }._1\<close> lowered from a fresh listener: the inner literal has two
  spreads and pushes nothing, the outer literal pushes \<^verbatim>\<open>undefined\<close>, and the access is
  built over the placeholder, with the identifiers 4 to 9.
\<close>

theorem exitDotCall_item_or_field_witness:
  "(\<exists>s'. exitDotCall (dotAccess ''_1'') afterName = Inr s'
        \<and> exprStack s' = [ExApp 3 ''item'' [ExName 1 ''t'', ExInt 2 1]])
   \<and> (\<exists>s'. exitDotCall (dotAccess ''_99'') afterName = Inr s'
        \<and> exprStack s' = [ExApp 3 ''item'' [ExName 1 ''t'', ExInt 2 99]])
   \<and> (\<exists>s'. exitDotCall (dotAccess ''_0'') afterName = Inr s'
        \<and> exprStack s' = [ExApp 3 ''field'' [ExName 1 ''t'', ExStr 2 ''_0'']])
   \<and> (\<exists>s'. exitDotCall (dotAccess ''_100'') afterName = Inr s'
        \<and> exprStack s' = [ExApp 3 ''field'' [ExName 1 ''t'', ExStr 2 ''_100'']])
   \<and> (\<exists>s'. exitDotCall (dotAccess ''name'') afterName = Inr s'
        \<and> exprStack s' = [ExApp 3 ''field'' [ExName 1 ''t'', ExStr 2 ''name'']])
   \<and> (\<exists>s0 s'. walk spreadOfSpreadsWalk (newListener ''sample.qnt'' 0) = Inr s0
        \<and> exitDotCall (dotAccess ''_1'') s0 = Inr s'
        \<and> exprStack s' =
             [ExApp 9 ''item''
                [ExLet 4 (OpDef 5 ''__undefinedExprGenerated'' QVal (ExBool 6 True) None)
                   (ExName 7 ''__undefinedExprGenerated''),
                 ExInt 8 1]])"
proof -
  have h: "\<not> dot_LPAREN (dotAccess f)" "\<not> dot_has_argList (dotAccess f)" for f
    by (simp_all add: sample_defs)
  have n: "nameAfterDot (dotAccess f) = f" for f
    by (simp add: sample_defs)
  have a: "idGen afterName = 1" "exprStack afterName = [] @ [ExName 1 ''t'']"
    by (simp_all add: sample_defs)
  have present: "\<exists>s'. exitDotCall (dotAccess f) afterName = Inr s'
      \<and> exprStack s' = [dottedAccess 2 (ExName 1 ''t'') f]" for f
    using exitDotCall_item_or_field [OF h [of f], of afterName] n [of f] a by simp
  obtain s0 where w: "walk spreadOfSpreadsWalk (newListener ''sample.qnt'' 0) = Inr s0"
    and s0: "exprStack s0 = [ExUndefined]" "idGen s0 = 3"
    using spreadOfSpreadsWalk_result
    by (cases "walk spreadOfSpreadsWalk (newListener ''sample.qnt'' 0)")
      (simp_all add: stackAndLastId_def)
  have missing: "\<exists>s'. exitDotCall (dotAccess ''_1'') s0 = Inr s'
      \<and> exprStack s' = [dottedAccess 8 (undefinedExprAt 3) ''_1'']"
    using exitDotCall_item_or_field [OF h [of "''_1''"], of s0] s0 n [of "''_1''"] by simp
  show ?thesis
    using present [of "''_1''"] present [of "''_99''"] present [of "''_0''"]
      present [of "''_100''"] present [of "''name''"] missing w
    by (simp add: dottedAccess_def undefinedExprAt_def tupleAccessorIndex_samples)
qed

section \<open>Popping from a stack that holds enough\<close>

lemma popMany_enough:
  "n \<le> length stack \<Longrightarrow>
     popMany stack n gen s = ((drop (length stack - n) stack, take (length stack - n) stack), s)"
  by (simp add: popMany_def)

lemma popManyExprs_append:
  assumes "exprStack s = rest @ es" and "length es = n"
  shows "popManyExprs ctx n s = (es, s\<lparr>exprStack := rest\<rparr>)"
  using assms by (simp add: popManyExprs_def popMany_enough)

section \<open>Record literals\<close>

lemma exitRecElem_wraps:
  assumes "exprStack s = rest @ [e]"
  shows "exprStack (exitRecElem ctx s) =
           rest @ [wrappedRecElem (case simpleId ctx of
                                     Some f \<Rightarrow> FieldElem (idGen s + 1) f e
                                   | None \<Rightarrow> SpreadElem e)]"
  using assms
  by (simp add: exitRecElem_def popExprUnchecked_def pop_snoc getId_eq pushExpr_def Let_def
      split: option.splits)

lemma spreads_of_wrapped:
  "filterE (isAppWithArgs 1) (map wrappedRecElem elems)
     = Inr (map (\<lambda>e. ExApp 0 ''Tup'' [e]) (spreadsOf elems))"
  by (induction elems rule: spreadsOf.induct) (simp_all add: isAppWithArgs_def)

lemma pairs_of_wrapped:
  "\<exists>ps. mapE pairArgs (map wrappedRecElem elems) = Inr ps
        \<and> filter (\<lambda>es. length es > 0) ps = pairsOf elems"
  by (induction elems rule: pairsOf.induct)
    (auto simp: pairArgs_def isAppWithArgs_def appArgs_def)

lemma concat_pairsOf: "concat (pairsOf elems) = recArgs elems"
  by (induction elems rule: pairsOf.induct) simp_all

lemma withLoop_pairsOf:
  "\<exists>s'. withLoop ctx (pairsOf elems) r s = (withChain (idGen s + 1) r elems, s')
        \<and> exprStack s' = exprStack s \<and> errors s' = errors s"
proof (induction elems arbitrary: r s rule: pairsOf.induct)
  case 1
  then show ?case by simp
next
  case (2 i n v es)
  obtain j s1 where g: "getId ctx s = (j, s1)" by (cases "getId ctx s")
  then have j: "j = idGen s + 1" "idGen s1 = idGen s + 1" "exprStack s1 = exprStack s"
    "errors s1 = errors s"
    by (auto simp: getId_eq Let_def)
  from "2.IH" [of "ExApp j ''with'' [r, ExStr i n, v]" s1]
  show ?case using g j by (simp add: add.commute)
next
  case (3 e es)
  then show ?case by simp
qed

text \<open>\<^verbatim>\<open>exitRecord\<close> on a stack that ends with the wrapped elements of the literal.\<close>

lemma exitRecord_on_wrapped:
  assumes "exprStack s = rest @ map wrappedRecElem elems" and "n_recElem ctx = length elems"
  shows "exitRecord ctx s =
     (if length (spreadsOf elems) = 0
      then Inr (pushApplication ctx ''Rec'' (recArgs elems) (s\<lparr>exprStack := rest\<rparr>))
      else if length (spreadsOf elems) > 1
      then (let (i, s2) = getId ctx (s\<lparr>exprStack := rest\<rparr>)
            in Inr (s2\<lparr>errors := errors s2 @ [tooManySpreadsError i]\<rparr>))
      else (let (record, s2) = withLoop ctx (pairsOf elems) (hd (spreadsOf elems))
                                 (s\<lparr>exprStack := rest\<rparr>)
            in Inr (pushExpr record s2)))"
proof -
  have p: "popManyExprs ctx (n_recElem ctx) s = (map wrappedRecElem elems, s\<lparr>exprStack := rest\<rparr>)"
    using assms by (intro popManyExprs_append) simp_all
  have h: "hd (appArgs (hd (map (\<lambda>e. ExApp 0 ''Tup'' [e]) (spreadsOf elems)))) = hd (spreadsOf elems)"
    if "spreadsOf elems \<noteq> []"
    using that by (cases "spreadsOf elems") (simp_all add: appArgs_def)
  obtain ps where m: "mapE pairArgs (map wrappedRecElem elems) = Inr ps"
    and f: "filter (\<lambda>es. length es > 0) ps = pairsOf elems"
    using pairs_of_wrapped [of elems] by blast
  show ?thesis
    unfolding exitRecord_def p Let_def prod.case spreads_of_wrapped m sum.case f concat_pairsOf
    using h by (cases "spreadsOf elems") simp_all
qed

lemma exitRecord_no_spread:
  assumes "exprStack s = rest @ map wrappedRecElem elems" and "n_recElem ctx = length elems"
    and "spreadsOf elems = []"
  shows "\<exists>s'. exitRecord ctx s = Inr s'
          \<and> exprStack s' = rest @ [ExApp (idGen s + 1) ''Rec'' (recArgs elems)]
          \<and> errors s' = errors s"
  using assms(3)
  by (simp add: exitRecord_on_wrapped [OF assms(1,2)] pushApplication_def getId_eq Let_def)

lemma exitRecord_one_spread:
  assumes "exprStack s = rest @ map wrappedRecElem elems" and "n_recElem ctx = length elems"
    and "spreadsOf elems = [r]"
  shows "\<exists>s'. exitRecord ctx s = Inr s'
          \<and> exprStack s' = rest @ [withChain (idGen s + 1) r elems]
          \<and> errors s' = errors s"
proof -
  obtain s' where w: "withLoop ctx (pairsOf elems) r (s\<lparr>exprStack := rest\<rparr>)
        = (withChain (idGen s + 1) r elems, s')"
    and s': "exprStack s' = rest" "errors s' = errors s"
    using withLoop_pairsOf [of ctx elems r "s\<lparr>exprStack := rest\<rparr>"] by auto
  show ?thesis
    using assms(3) w s' by (simp add: exitRecord_on_wrapped [OF assms(1,2)] pushExpr_def)
qed

lemma exitRecord_more_spreads:
  assumes "exprStack s = rest @ map wrappedRecElem elems" and "n_recElem ctx = length elems"
    and "length (spreadsOf elems) > 1"
  shows "\<exists>s'. exitRecord ctx s = Inr s'
          \<and> exprStack s' = rest
          \<and> errors s' = errors s @ [tooManySpreadsError (idGen s + 1)]
          \<and> idGen s' = idGen s + 1
          \<and> sourceMap s' (idGen s + 1) = Some (loc (sourceLocation s) ctx)"
  using assms(3)
  by (cases "spreadsOf elems") (simp_all add: exitRecord_on_wrapped [OF assms(1,2)] getId_eq Let_def)

text \<open>
  The elements of a literal, walked one after the other, leave their wrappers on the
  expression stack, in order.
\<close>

lemma recElems_walk:
  assumes "elemsLowered es s"
  shows "\<exists>s1. walk (recElemRules es) s = Inr s1
          \<and> exprStack s1 = exprStack s @ map wrappedRecElem (loweredElems es s)
          \<and> length (loweredElems es s) = length es"
  using assms
proof (induction es arbitrary: s)
  case Nil
  then show ?case by simp
next
  case (Cons a es)
  obtain vr c where a: "a = (vr, c)" by (cases a)
  from Cons.prems obtain s1 where w: "walk vr s = Inr s1"
    and ne: "exprStack s1 \<noteq> []" and bl: "butlast (exprStack s1) = exprStack s"
    and rest: "elemsLowered es (exitRecElem c s1)"
    by (auto simp: a split: sum.splits)
  define e where "e = (case simpleId c of
                         Some f \<Rightarrow> FieldElem (idGen s1 + 1) f (last (exprStack s1))
                       | None \<Rightarrow> SpreadElem (last (exprStack s1)))"
  have top: "exprStack s1 = exprStack s @ [last (exprStack s1)]"
    using ne bl append_butlast_last_id [of "exprStack s1"] by simp
  have wrapped: "exprStack (exitRecElem c s1) = exprStack s @ [wrappedRecElem e]"
    using exitRecElem_wraps [OF top, of c] by (simp add: e_def)
  from Cons.IH [OF rest] obtain s2 where
    w2: "walk (recElemRules es) (exitRecElem c s1) = Inr s2"
    and s2: "exprStack s2 = exprStack (exitRecElem c s1)
               @ map wrappedRecElem (loweredElems es (exitRecElem c s1))"
    and len: "length (loweredElems es (exitRecElem c s1)) = length es"
    by blast
  have l: "loweredElems ((vr, c) # es) s = e # loweredElems es (exitRecElem c s1)"
    by (simp add: w e_def)
  have wk: "walk (recElemRules ((vr, c) # es)) s = Inr s2"
    by (simp add: walk_append w w2)
  show ?case
    unfolding a l using wk s2 len wrapped by simp
qed

text \<open>
  C9.  A record literal, walked from its first element to \<^verbatim>\<open>exitRecord\<close>, each value being
  lowered to one expression.  Without a spread the literal is replaced by the application
  of \<^verbatim>\<open>Rec\<close> to the flattened list of field names and field values; with exactly one
  spread \<open>r\<close> it is replaced by the \<^verbatim>\<open>with\<close> applications folded from left to right over
  the pairs, starting from \<open>r\<close>.  The expression is pushed on the stack as it was before
  the literal, and \<^verbatim>\<open>exitRecord\<close> reports no error in either case.
\<close>

theorem record_literal_zero_or_one_spread:
  assumes "n_recElem c = length es" and "elemsLowered es s"
  shows "\<exists>s1. walk (recElemRules es) s = Inr s1
          \<and> (spreadsOf (loweredElems es s) = [] \<longrightarrow>
               (\<exists>s'. walk (recElemRules es @ [ExitRecord c]) s = Inr s'
                   \<and> exprStack s' = exprStack s
                        @ [ExApp (idGen s1 + 1) ''Rec'' (recArgs (loweredElems es s))]
                   \<and> errors s' = errors s1))
          \<and> (\<forall>r. spreadsOf (loweredElems es s) = [r] \<longrightarrow>
               (\<exists>s'. walk (recElemRules es @ [ExitRecord c]) s = Inr s'
                   \<and> exprStack s' = exprStack s @ [withChain (idGen s1 + 1) r (loweredElems es s)]
                   \<and> errors s' = errors s1))"
proof -
  from recElems_walk [OF assms(2)] obtain s1 where w: "walk (recElemRules es) s = Inr s1"
    and st: "exprStack s1 = exprStack s @ map wrappedRecElem (loweredElems es s)"
    and len: "length (loweredElems es s) = length es"
    by blast
  have n: "n_recElem c = length (loweredElems es s)" using assms(1) len by simp
  have r: "walk (recElemRules es @ [ExitRecord c]) s = exitRecord c s1"
    using walk_then_rule [OF w, of "ExitRecord c"] by simp
  have zero: "\<exists>s'. walk (recElemRules es @ [ExitRecord c]) s = Inr s'
      \<and> exprStack s' = exprStack s @ [ExApp (idGen s1 + 1) ''Rec'' (recArgs (loweredElems es s))]
      \<and> errors s' = errors s1"
    if "spreadsOf (loweredElems es s) = []"
    using exitRecord_no_spread [OF st n that] by (simp add: r)
  have one: "\<exists>s'. walk (recElemRules es @ [ExitRecord c]) s = Inr s'
      \<and> exprStack s' = exprStack s @ [withChain (idGen s1 + 1) x (loweredElems es s)]
      \<and> errors s' = errors s1"
    if "spreadsOf (loweredElems es s) = [x]" for x
    using exitRecord_one_spread [OF st n that] by (simp add: r)
  show ?thesis using w zero one by blast
qed

text \<open>
  \<^verbatim>\<open>{ ...r, x: 1 }\<close> and \<^verbatim>\<open>{ x: 1, y: b }\<close>, lowered from a fresh listener: the first becomes
  \<^verbatim>\<open>with(r, "x", 1)\<close>, the second \<^verbatim>\<open>Rec("x", 1, "y", b)\<close>.
\<close>

theorem record_literal_zero_or_one_spread_witness:
  "map_sum id exprStack
     (walk [ExitLiteralOrId (nameLit ''r''), ExitRecElem spreadCtx,
            ExitLiteralOrId (intLit ''1''), ExitRecElem (fieldCtx ''x''),
            ExitRecord (recordOf 2)] (newListener ''sample.qnt'' 0))
     = Inr [ExApp 4 ''with'' [ExName 1 ''r'', ExStr 3 ''x'', ExInt 2 1]]
   \<and> map_sum id exprStack
     (walk [ExitLiteralOrId (intLit ''1''), ExitRecElem (fieldCtx ''x''),
            ExitLiteralOrId (nameLit ''b''), ExitRecElem (fieldCtx ''y''),
            ExitRecord (recordOf 2)] (newListener ''sample.qnt'' 0))
     = Inr [ExApp 5 ''Rec'' [ExStr 2 ''x'', ExInt 1 1, ExStr 4 ''y'', ExName 3 ''b'']]"
proof -
  define s0 where "s0 = newListener ''sample.qnt'' 0"
  have e0: "exprStack s0 = []" by (simp add: s0_def newListener_def)
  have n1: "n_recElem (recordOf 2) = length spreadThenField"
    and n2: "n_recElem (recordOf 2) = length twoFields"
    by (simp_all add: recordOf_def spreadThenField_def twoFields_def)
  have l1: "elemsLowered spreadThenField s0" unfolding s0_def by code_simp
  have l2: "elemsLowered twoFields s0" unfolding s0_def by code_simp
  have v1: "loweredElems spreadThenField s0
      = [SpreadElem (ExName 1 ''r''), FieldElem 3 ''x'' (ExInt 2 1)]"
    unfolding s0_def by code_simp
  have v2: "loweredElems twoFields s0
      = [FieldElem 2 ''x'' (ExInt 1 1), FieldElem 4 ''y'' (ExName 3 ''b'')]"
    unfolding s0_def by code_simp
  have i1: "map_sum id idGen (walk (recElemRules spreadThenField) s0) = Inr 3"
    unfolding s0_def by code_simp
  have i2: "map_sum id idGen (walk (recElemRules twoFields) s0) = Inr 4"
    unfolding s0_def by code_simp
  have r1: "recElemRules spreadThenField @ [ExitRecord (recordOf 2)]
      = [ExitLiteralOrId (nameLit ''r''), ExitRecElem spreadCtx,
         ExitLiteralOrId (intLit ''1''), ExitRecElem (fieldCtx ''x''), ExitRecord (recordOf 2)]"
    by (simp add: spreadThenField_def)
  have r2: "recElemRules twoFields @ [ExitRecord (recordOf 2)]
      = [ExitLiteralOrId (intLit ''1''), ExitRecElem (fieldCtx ''x''),
         ExitLiteralOrId (nameLit ''b''), ExitRecElem (fieldCtx ''y''), ExitRecord (recordOf 2)]"
    by (simp add: twoFields_def)
  have a: "map_sum id exprStack (walk (recElemRules spreadThenField @ [ExitRecord (recordOf 2)]) s0)
      = Inr [ExApp 4 ''with'' [ExName 1 ''r'', ExStr 3 ''x'', ExInt 2 1]]"
    using record_literal_zero_or_one_spread [OF n1 l1] i1 by (auto simp: v1 e0)
  have b: "map_sum id exprStack (walk (recElemRules twoFields @ [ExitRecord (recordOf 2)]) s0)
      = Inr [ExApp 5 ''Rec'' [ExStr 2 ''x'', ExInt 1 1, ExStr 4 ''y'', ExName 3 ''b'']]"
    using record_literal_zero_or_one_spread [OF n2 l2] i2 by (auto simp: v2 e0)
  show ?thesis using a b unfolding r1 r2 unfolding s0_def by (rule conjI)
qed

text \<open>
  C1.  A record literal with more than one spread, walked from its first element to
  \<^verbatim>\<open>exitRecord\<close>: \<^verbatim>\<open>exitRecord\<close> issues one identifier and reports exactly one
  \<^verbatim>\<open>tooManySpreadsError\<close> carrying it, and the expression stack is left as it was before
  the literal.  No expression is pushed for the literal, neither a \<^verbatim>\<open>with\<close> chain over
  the first spread nor anything else.
\<close>

theorem exitRecord_many_spreads:
  assumes "n_recElem c = length es" and "elemsLowered es s"
    and "length (spreadsOf (loweredElems es s)) > 1"
  shows "\<exists>s1 s'. walk (recElemRules es) s = Inr s1
          \<and> walk (recElemRules es @ [ExitRecord c]) s = Inr s'
          \<and> exprStack s' = exprStack s
          \<and> errors s' = errors s1 @ [tooManySpreadsError (idGen s1 + 1)]
          \<and> idGen s' = idGen s1 + 1
          \<and> sourceMap s' (idGen s1 + 1) = Some (loc (sourceLocation s1) c)"
proof -
  from recElems_walk [OF assms(2)] obtain s1 where w: "walk (recElemRules es) s = Inr s1"
    and st: "exprStack s1 = exprStack s @ map wrappedRecElem (loweredElems es s)"
    and len: "length (loweredElems es s) = length es"
    by blast
  have n: "n_recElem c = length (loweredElems es s)" using assms(1) len by simp
  have r: "walk (recElemRules es @ [ExitRecord c]) s = exitRecord c s1"
    using walk_then_rule [OF w, of "ExitRecord c"] by simp
  show ?thesis
    using exitRecord_more_spreads [OF st n assms(3)] w by (simp add: r)
qed

text \<open>
  The literal \<^verbatim>\<open>{ ...r, ...s, x: 1 }\<close>, lowered from a fresh listener: the walk ends with
  one error and an empty expression stack, so no \<^verbatim>\<open>with\<close> application over \<^verbatim>\<open>r\<close> has been
  pushed.
\<close>

theorem exitRecord_many_spreads_witness:
  "map_sum id exprsAndErrors
     (walk [ExitLiteralOrId (nameLit ''r''), ExitRecElem spreadCtx,
            ExitLiteralOrId (nameLit ''s''), ExitRecElem spreadCtx,
            ExitLiteralOrId (intLit ''1''), ExitRecElem (fieldCtx ''x''),
            ExitRecord (recordOf 3)] (newListener ''sample.qnt'' 0))
   = Inr ([], [tooManySpreadsError 5])"
proof -
  define s0 where "s0 = newListener ''sample.qnt'' 0"
  have e0: "exprStack s0 = []" by (simp add: s0_def newListener_def)
  have n: "n_recElem (recordOf 3) = length twoSpreadsThenField"
    by (simp add: recordOf_def twoSpreadsThenField_def)
  have l: "elemsLowered twoSpreadsThenField s0" unfolding s0_def by code_simp
  have v: "length (spreadsOf (loweredElems twoSpreadsThenField s0)) > 1"
    unfolding s0_def by code_simp
  have i: "map_sum id idGen (walk (recElemRules twoSpreadsThenField) s0) = Inr 4"
    unfolding s0_def by code_simp
  have g: "map_sum id errors (walk (recElemRules twoSpreadsThenField) s0) = Inr []"
    unfolding s0_def by code_simp
  have r: "recElemRules twoSpreadsThenField @ [ExitRecord (recordOf 3)]
      = [ExitLiteralOrId (nameLit ''r''), ExitRecElem spreadCtx,
         ExitLiteralOrId (nameLit ''s''), ExitRecElem spreadCtx,
         ExitLiteralOrId (intLit ''1''), ExitRecElem (fieldCtx ''x''), ExitRecord (recordOf 3)]"
    by (simp add: twoSpreadsThenField_def)
  have "map_sum id exprsAndErrors
      (walk (recElemRules twoSpreadsThenField @ [ExitRecord (recordOf 3)]) s0)
      = Inr ([], [tooManySpreadsError 5])"
    using exitRecord_many_spreads [OF n l v] i g by (auto simp: e0 exprsAndErrors_def)
  then show ?thesis unfolding r unfolding s0_def .
qed

section \<open>The end of a module\<close>

text \<open>
  C5, as the code has it.  When a module is completed, a warning is written to the
  console (and nothing is added to the diagnostics) exactly when the expression stack,
  the stack of imported names, the row stack or the variant stack is not empty; the stacks
  of types, parameters and bare identifiers are not looked at.  The declaration stack is
  emptied into the new module, which is appended to the output; every other stack is
  left as it is.
\<close>

theorem exitModule_effect:
  "console (exitModule ctx s) =
     console s @ (if length (exprStack s) > 0 \<or> length (identOrStarStack s) > 0
                     \<or> length (rowStack s) > 0 \<or> length (variantStack s) > 0
                  then [ConsoleError leftOnStackMessage] else [])
   \<and> errors (exitModule ctx s) = errors s
   \<and> declarationStack (exitModule ctx s) = []
   \<and> exprStack (exitModule ctx s) = exprStack s
   \<and> typeStack (exitModule ctx s) = typeStack s
   \<and> paramStack (exitModule ctx s) = paramStack s
   \<and> identOrHoleStack (exitModule ctx s) = identOrHoleStack s
   \<and> identOrStarStack (exitModule ctx s) = identOrStarStack s
   \<and> rowStack (exitModule ctx s) = rowStack s
   \<and> variantStack (exitModule ctx s) = variantStack s
   \<and> map declarations (modules (exitModule ctx s)) = map declarations (modules s) @ [declarationStack s]"
  by (simp add: exitModule_def consoleError_def getId_eq Let_def)

theorem exitModule_effect_witness:
  "console (exitModule (moduleCtx ''M'') afterName) = [ConsoleError leftOnStackMessage]
   \<and> exprStack (exitModule (moduleCtx ''M'') afterName) = [ExName 1 ''t'']
   \<and> declarationStack (exitModule (moduleCtx ''M'') afterName) = []"
  using exitModule_effect [of "moduleCtx ''M''" afterName]
  by (simp add: sample_defs)

text \<open>
  A leftover expression survives the end of the module, and a leftover type is neither
  reported nor removed.
\<close>

theorem exitModule_keeps_stacks:
  "exprStack (exitModule (moduleCtx ''M'') afterName) = [ExName 1 ''t'']
   \<and> typeStack (exitModule (moduleCtx ''M'')
        ((newListener ''sample.qnt'' 1)\<lparr>typeStack := [TInt (Some 1)]\<rparr>)) = [TInt (Some 1)]
   \<and> console (exitModule (moduleCtx ''M'')
        ((newListener ''sample.qnt'' 1)\<lparr>typeStack := [TInt (Some 1)]\<rparr>)) = []"
  by (simp add: exitModule_def consoleError_def getId_eq Let_def sample_defs)

section \<open>Variant matches\<close>

lemma formMatchCases_args:
  "\<exists>s'. formMatchCases cs acc s = (acc @ matchCaseArgs (idGen s + 1) cs, s')
        \<and> exprStack s' = exprStack s \<and> errors s' = errors s"
proof (induction cs arbitrary: acc s)
  case Nil
  then show ?case by simp
next
  case (Cons bc cs)
  obtain body c where bc: "bc = (body, c)" by (cases bc)
  obtain args s1 where f: "formMatchCase body c s = (args, s1)" by (cases "formMatchCase body c s")
  then have a: "args = [ExStr (idGen s + 1) (caseLabel c),
                        ExLambda (idGen s + 2)
                          [\<lparr>param_id = idGen s + 3, param_name = caseParamName c\<rparr>] QDef body]"
    and s1: "idGen s1 = idGen s + 3" "exprStack s1 = exprStack s" "errors s1 = errors s"
    by (auto simp: formMatchCase_def getId_eq Let_def caseLabel_def caseParamName_def)
  from Cons.IH [of "acc @ args" s1]
  show ?case using f a s1 bc by (simp add: add.commute add.left_commute)
qed

text \<open>
  C7.  A variant match whose scrutinee \<open>e\<close> and case bodies are on the expression stack,
  one body per case: they are replaced by one application of \<^verbatim>\<open>matchVariant\<close> to the
  scrutinee followed, case by case in source order, by the label string (\<^verbatim>\<open>_\<close> for a
  wildcard) and the one-parameter lambda that binds the payload name (\<^verbatim>\<open>_\<close> when the case
  binds none) over the case's body.
\<close>

theorem exitMatchSumExpr_lowering:
  assumes "exprStack s = rest @ e # bodies" and "length bodies = length (matchCase ctx)"
  shows "exprStack (exitMatchSumExpr ctx s) =
           rest @ [ExApp (idGen s + 1) ''matchVariant''
                     (e # matchCaseArgs (idGen s + 2) (zip bodies (matchCase ctx)))]
       \<and> errors (exitMatchSumExpr ctx s) = errors s"
proof -
  obtain i s1 where g: "getId ctx s = (i, s1)" by (cases "getId ctx s")
  then have i: "i = idGen s + 1" "idGen s1 = idGen s + 1" "exprStack s1 = rest @ (e # bodies)"
    "errors s1 = errors s"
    using assms(1) by (auto simp: getId_eq Let_def)
  have p: "popManyExprs ctx (length (matchCase ctx) + 1) s1 = (e # bodies, s1\<lparr>exprStack := rest\<rparr>)"
    using i(3) assms(2) by (intro popManyExprs_append) simp_all
  obtain s2 where f: "formMatchCases (zip bodies (matchCase ctx)) [] (s1\<lparr>exprStack := rest\<rparr>)
        = (matchCaseArgs (idGen s + 2) (zip bodies (matchCase ctx)), s2)"
    and s2: "exprStack s2 = rest" "errors s2 = errors s"
    using formMatchCases_args [of "zip bodies (matchCase ctx)" "[]" "s1\<lparr>exprStack := rest\<rparr>"] i
    by (auto simp: add.commute)
  show ?thesis
    using g p f s2 i(1) by (simp add: exitMatchSumExpr_def pushExpr_def)
qed

theorem exitMatchSumExpr_lowering_witness:
  "exprStack (exitMatchSumExpr
      (matchCtx [matchCaseCtx (Some \<lparr>variantLabel = ''A'', variantParam = Some ''x''\<rparr>),
                 matchCaseCtx None])
      (listenerWith [ExName 1 ''v'', ExName 2 ''x'', ExInt 3 0] 3))
   = [ExApp 4 ''matchVariant''
        [ExName 1 ''v'',
         ExStr 5 ''A'', ExLambda 6 [\<lparr>param_id = 7, param_name = ''x''\<rparr>] QDef (ExName 2 ''x''),
         ExStr 8 ''_'', ExLambda 9 [\<lparr>param_id = 10, param_name = ''_''\<rparr>] QDef (ExInt 3 0)]]"
  using exitMatchSumExpr_lowering
      [where s = "listenerWith [ExName 1 ''v'', ExName 2 ''x'', ExInt 3 0] 3" and rest = "[]"
         and e = "ExName 1 ''v''" and bodies = "[ExName 2 ''x'', ExInt 3 0]"
         and ctx = "matchCtx [matchCaseCtx (Some \<lparr>variantLabel = ''A'', variantParam = Some ''x''\<rparr>),
                              matchCaseCtx None]"]
  by (simp add: sample_defs caseLabel_def caseParamName_def)

section \<open>Sum types\<close>

lemma exitTypeSumVariant_no_payload:
  assumes "typeStack s = []"
  shows "variantStack (exitTypeSumVariant vctx s) =
           variantStack s @ [RowField (ctx_text (sumLabel vctx)) (unitType (idGen s + 1))]"
  using assms by (simp add: exitTypeSumVariant_def popType_def pop_def getId_eq Let_def)

lemma exitTypeSumVariant_payload:
  assumes "typeStack s = ts @ [P]"
  shows "variantStack (exitTypeSumVariant vctx s) = variantStack s @ [RowField (ctx_text (sumLabel vctx)) P]
       \<and> typeStack (exitTypeSumVariant vctx s) = ts"
  using assms by (simp add: exitTypeSumVariant_def popType_def pop_snoc Let_def)

lemma variantConstructor_unit:
  assumes "isUnitType p"
  shows "\<exists>s'. variantConstructor T (RowField v p) vc s =
             Inr (OpDef (idGen s + 4) v QVal
                    (ExApp (idGen s + 3) ''variant'' [ExStr (idGen s + 1) v, ExApp (idGen s + 2) ''Rec'' []])
                    (Some T), s')
          \<and> idGen s' = idGen s + 4 \<and> declarationStack s' = declarationStack s
          \<and> errors s' = errors s \<and> variantStack s' = variantStack s"
  using assms by (simp add: variantConstructor_def getId_eq unitValue_def Let_def)

lemma variantConstructor_payload:
  assumes "\<not> isUnitType p" and "variant_type vc \<noteq> None"
  shows "\<exists>s'. variantConstructor T (RowField v p) vc s =
             Inr (OpDef (idGen s + 6) v QDef
                    (ExLambda (idGen s + 5)
                       [\<lparr>param_id = idGen s + 2, param_name = ''__'' @ v @ ''Param''\<rparr>] QDef
                       (ExApp (idGen s + 4) ''variant''
                          [ExStr (idGen s + 1) v, ExName (idGen s + 3) (''__'' @ v @ ''Param'')]))
                    (Some (TOper None [p] T)), s')
          \<and> idGen s' = idGen s + 6 \<and> declarationStack s' = declarationStack s
          \<and> errors s' = errors s \<and> variantStack s' = variantStack s"
  using assms by (auto simp: variantConstructor_def getId_eq Let_def)

lemma variantConstructors_sumConstructors:
  assumes "list_all2 typeChildPresent flds vcs"
  shows "\<exists>s'. variantConstructors T (zip flds vcs) s = Inr (sumConstructors (idGen s + 1) T flds, s')
          \<and> declarationStack s' = declarationStack s \<and> errors s' = errors s
          \<and> variantStack s' = variantStack s"
  using assms
proof (induction flds vcs arbitrary: s rule: list_all2_induct)
  case Nil
  then show ?case by simp
next
  case (Cons f fs vc vcs)
  obtain v p where f: "f = RowField v p" by (cases f)
  show ?case
  proof (cases "isUnitType p")
    case True
    obtain s1 where c: "variantConstructor T (RowField v p) vc s =
             Inr (OpDef (idGen s + 4) v QVal
                    (ExApp (idGen s + 3) ''variant'' [ExStr (idGen s + 1) v, ExApp (idGen s + 2) ''Rec'' []])
                    (Some T), s1)"
      and s1: "idGen s1 = idGen s + 4" "declarationStack s1 = declarationStack s"
        "errors s1 = errors s" "variantStack s1 = variantStack s"
      using variantConstructor_unit [OF True, of T v vc s] by auto
    from Cons.IH [of s1] obtain s2 where
      r: "variantConstructors T (zip fs vcs) s1 = Inr (sumConstructors (idGen s1 + 1) T fs, s2)"
      and s2: "declarationStack s2 = declarationStack s1" "errors s2 = errors s1"
        "variantStack s2 = variantStack s1"
      by auto
    show ?thesis
      using True c r s1 s2 f by (simp add: add.commute add.left_commute)
  next
    case False
    then have vt: "variant_type vc \<noteq> None" using Cons.hyps(1) f by simp
    obtain s1 where c: "variantConstructor T (RowField v p) vc s =
             Inr (OpDef (idGen s + 6) v QDef
                    (ExLambda (idGen s + 5)
                       [\<lparr>param_id = idGen s + 2, param_name = ''__'' @ v @ ''Param''\<rparr>] QDef
                       (ExApp (idGen s + 4) ''variant''
                          [ExStr (idGen s + 1) v, ExName (idGen s + 3) (''__'' @ v @ ''Param'')]))
                    (Some (TOper None [p] T)), s1)"
      and s1: "idGen s1 = idGen s + 6" "declarationStack s1 = declarationStack s"
        "errors s1 = errors s" "variantStack s1 = variantStack s"
      using variantConstructor_payload [OF False vt, of T v s] by auto
    from Cons.IH [of s1] obtain s2 where
      r: "variantConstructors T (zip fs vcs) s1 = Inr (sumConstructors (idGen s1 + 1) T fs, s2)"
      and s2: "declarationStack s2 = declarationStack s1" "errors s2 = errors s1"
        "variantStack s2 = variantStack s1"
      by auto
    show ?thesis
      using False c r s1 s2 f by (simp add: add.commute add.left_commute)
  qed
qed

lemma exitTypeSumDef_fields:
  assumes "list_all2 typeChildPresent (variantStack s) (typeSumVariant ctx)"
  shows "\<exists>s'. exitTypeSumDef ctx s = Inr s'
          \<and> declarationStack s' =
              declarationStack s
                @ DeclTypeDef (idGen s + 1) (typeName ctx)
                    (Some (TSum (Some (idGen s + 1)) (RowRow (variantStack s) RowEmpty)))
                # map DeclDef (sumConstructors (idGen s + 2)
                                 (TConst (Some (idGen s + 1)) (typeName ctx)) (variantStack s))
          \<and> variantStack s' = [] \<and> errors s' = errors s"
proof -
  obtain i s1 where g: "getId ctx s = (i, s1)" by (cases "getId ctx s")
  then have i: "i = idGen s + 1" "idGen s1 = idGen s + 1" "variantStack s1 = variantStack s"
    "declarationStack s1 = declarationStack s" "errors s1 = errors s"
    by (auto simp: getId_eq Let_def)
  have p: "popMany (variantStack s1) (length (variantStack s1)) (undefinedVariant ctx) s1
      = ((variantStack s, []), s1)"
    by (simp add: popMany_enough i(3))
  obtain s2 where c: "variantConstructors (TConst (Some i) (typeName ctx))
        (zip (variantStack s) (typeSumVariant ctx)) (s1\<lparr>variantStack := []\<rparr>)
        = Inr (sumConstructors (idGen s + 2) (TConst (Some i) (typeName ctx)) (variantStack s), s2)"
    and s2: "declarationStack s2 = declarationStack s" "errors s2 = errors s" "variantStack s2 = []"
    using variantConstructors_sumConstructors
      [OF assms, of "TConst (Some i) (typeName ctx)" "s1\<lparr>variantStack := []\<rparr>"] i
    by (auto simp: add.commute)
  show ?thesis
    using g p c s2 i(1) by (simp add: exitTypeSumDef_def Let_def)
qed

text \<open>
  The variants of a definition, walked one after the other, leave their fields on the
  variant stack, in order; a field with a payload type belongs to a variant that has the
  type child.
\<close>

lemma variants_walk:
  assumes "payloadsLowered vs s"
  shows "\<exists>s1. walk (variantRules vs) s = Inr s1
          \<and> variantStack s1 = variantStack s @ variantFields vs s
          \<and> list_all2 typeChildPresent (variantFields vs s) (map snd vs)"
  using assms
proof (induction vs arbitrary: s)
  case Nil
  then show ?case by simp
next
  case (Cons a vs)
  obtain pr vc where a: "a = (pr, vc)" by (cases a)
  from Cons.prems obtain s1 where w: "walk pr s = Inr s1"
    and vst: "variantStack s1 = variantStack s"
    and ts: "length (typeStack s1) = (case variant_type vc of None \<Rightarrow> 0 | Some tc \<Rightarrow> 1)"
    and rest: "payloadsLowered vs (exitTypeSumVariant vc s1)"
    by (auto simp: a split: sum.splits)
  define f where "f = RowField (ctx_text (sumLabel vc))
                        (case variant_type vc of
                           None \<Rightarrow> unitType (idGen s1 + 1)
                         | Some tc \<Rightarrow> last (typeStack s1))"
  have pushed: "variantStack (exitTypeSumVariant vc s1) = variantStack s @ [f]"
  proof (cases "variant_type vc")
    case None
    then have "typeStack s1 = []" using ts by simp
    then show ?thesis
      using exitTypeSumVariant_no_payload [of s1 vc] None vst by (simp add: f_def)
  next
    case (Some tc)
    then have "length (typeStack s1) = 1" using ts by simp
    then have "typeStack s1 = [] @ [last (typeStack s1)]"
      by (cases "typeStack s1") simp_all
    then show ?thesis
      using exitTypeSumVariant_payload [of s1 "[]" "last (typeStack s1)" vc] Some vst
      by (simp add: f_def)
  qed
  have present: "typeChildPresent f vc"
    by (cases "variant_type vc") (simp_all add: f_def unitType_def)
  from Cons.IH [OF rest] obtain s2 where
    w2: "walk (variantRules vs) (exitTypeSumVariant vc s1) = Inr s2"
    and s2: "variantStack s2 = variantStack (exitTypeSumVariant vc s1)
               @ variantFields vs (exitTypeSumVariant vc s1)"
    and all: "list_all2 typeChildPresent (variantFields vs (exitTypeSumVariant vc s1)) (map snd vs)"
    by blast
  have l: "variantFields ((pr, vc) # vs) s = f # variantFields vs (exitTypeSumVariant vc s1)"
    by (simp add: w f_def)
  have wk: "walk (variantRules ((pr, vc) # vs)) s = Inr s2"
    by (simp add: walk_append w w2)
  show ?case
    unfolding a l using wk s2 all present pushed by simp
qed




section \<open>Tuple-parameter lambdas\<close>

lemma showInt_4: "showInt 4 = ''4''"
proof -
  have "char_of (of_char (CHR ''4'') :: nat) = CHR ''4''" by (rule char_of_char)
  then have "char_of (52 :: nat) = CHR ''4''" by simp
  then show ?thesis by (simp add: showInt_def digitsOf_one)
qed

lemma bindOutermostFirst_snoc:
  "bindOutermostFirst fresh (bs @ [b]) body = bindOutermostFirst fresh bs (bindOutermostFirst fresh [b] body)"
  by (induction bs) auto

lemma tupleParamsReduce_nesting:
  "\<exists>s'. tupleParamsReduce ctx freshParam ps k acc s
          = (bindOutermostFirst (param_name freshParam) (rev (numberFrom (idGen s + 1) k ps)) acc, s')
        \<and> idGen s' = idGen s + 4 * int (length ps)
        \<and> exprStack s' = exprStack s \<and> errors s' = errors s"
proof (induction ps arbitrary: k acc s)
  case Nil
  then show ?case by simp
next
  case (Cons p ps)
  obtain b s1 where l: "letBindingForTupleParam ctx freshParam acc p k s = (b, s1)"
    by (cases "letBindingForTupleParam ctx freshParam acc p k s")
  then have b: "b = bindOutermostFirst (param_name freshParam) [(idGen s + 1, k, p)] acc"
    and s1: "idGen s1 = idGen s + 4" "exprStack s1 = exprStack s" "errors s1 = errors s"
    by (auto simp: letBindingForTupleParam_def getId_eq Let_def)
  obtain s2 where r: "tupleParamsReduce ctx freshParam ps (Suc k) b s1
          = (bindOutermostFirst (param_name freshParam) (rev (numberFrom (idGen s1 + 1) (Suc k) ps)) b, s2)"
    and s2: "idGen s2 = idGen s1 + 4 * int (length ps)" "exprStack s2 = exprStack s1"
      "errors s2 = errors s1"
    using Cons.IH [of "Suc k" b s1] by auto
  have n: "idGen s1 + 1 = idGen s + 1 + 4" using s1 by simp
  show ?case
    using l r s2 s1 unfolding n b
    by (simp add: bindOutermostFirst_snoc)
qed

text \<open>
  The general form: with the parameters \<open>ps\<close> on the parameter stack and the body on the
  expression stack, the lambda's body nests the bindings in the reverse of the declaration
  order, the binding of the last parameter outermost.
\<close>

lemma exitLambdaTupleSugar_nesting:
  assumes "exprStack s = rest @ [body]" and "paramStack s = prest @ ps"
    and "lambda_n_parameter ctx = length ps" and "body \<noteq> ExUndefined"
  shows "exprStack (exitLambdaTupleSugar ctx s) =
           rest @ [ExLambda (idGen s + 4 * int (length ps) + 2)
                     [\<lparr>param_id = idGen s + 1,
                       param_name = ''quintTupledLambdaParam'' @ showInt (idGen s + 1)\<rparr>] QDef
                     (bindOutermostFirst (''quintTupledLambdaParam'' @ showInt (idGen s + 1))
                        (rev (numberFrom (idGen s + 2) 0 ps)) body)]"
proof -
  define s1 where "s1 = s\<lparr>exprStack := rest\<rparr>"
  have e: "popExprOrUndefined ctx s = (body, s1)"
    using assms(1,4) by (simp add: popExprOrUndefined_snoc s1_def)
  define s2 where "s2 = s1\<lparr>paramStack := prest\<rparr>"
  have p: "popManyParams ctx (lambda_n_parameter ctx) s1 = (ps, s2)"
    using assms(2,3) by (simp add: popManyParams_def popMany_enough s1_def s2_def)
  obtain i s3 where g: "getId ctx s2 = (i, s3)" by (cases "getId ctx s2")
  then have i: "i = idGen s + 1" "idGen s3 = idGen s + 1" "exprStack s3 = rest"
    by (auto simp: getId_eq Let_def s1_def s2_def)
  define fresh where "fresh = \<lparr>param_id = i, param_name = ''quintTupledLambdaParam'' @ showInt i\<rparr>"
  obtain s4 where r: "tupleParamsReduce ctx fresh ps 0 body s3
          = (bindOutermostFirst (param_name fresh) (rev (numberFrom (idGen s3 + 1) 0 ps)) body, s4)"
    and s4: "idGen s4 = idGen s3 + 4 * int (length ps)" "exprStack s4 = exprStack s3"
    using tupleParamsReduce_nesting [of ctx fresh ps 0 body s3] by auto
  obtain l s5 where g2: "getId ctx s4 = (l, s5)" by (cases "getId ctx s4")
  then have l: "l = idGen s4 + 1" "exprStack s5 = exprStack s4"
    by (auto simp: getId_eq Let_def)
  show ?thesis
    using e p g r g2 i s4 l
    by (simp add: exitLambdaTupleSugar_def pushExpr_def fresh_def add.commute add.left_commute)
qed

text \<open>
  C3 at \<^verbatim>\<open>((a, b)) => a\<close>, lowered from a fresh listener.  The result is one lambda over
  the fresh parameter \<^verbatim>\<open>quintTupledLambdaParam4\<close>; its body binds \<^verbatim>\<open>b\<close> to item 2 outermost
  and \<^verbatim>\<open>a\<close> to item 1 inside it, around the unchanged body: \<^verbatim>\<open>reduce\<close> wraps the bindings
  from the first parameter outwards, so the last parameter's binding ends outermost.
\<close>

theorem tuple_lambda_binds_last_parameter_outermost:
  "map_sum id exprStack
     (walk [ExitIdentOrHole (identCtx ''a''), ExitParameter (ctxOf ''a''),
            ExitIdentOrHole (identCtx ''b''), ExitParameter (ctxOf ''b''),
            ExitLiteralOrId (nameLit ''a''), ExitLambdaTupleSugar (lambdaCtx 2)]
        (newListener ''sample.qnt'' 0))
   = Inr [ExLambda 13 [\<lparr>param_id = 4, param_name = ''quintTupledLambdaParam4''\<rparr>] QDef
            (ExLet 9
               (OpDef 2 ''b'' QPureval
                  (ExApp 10 ''item'' [ExName 11 ''quintTupledLambdaParam4'', ExInt 12 2]) None)
               (ExLet 5
                  (OpDef 1 ''a'' QPureval
                     (ExApp 6 ''item'' [ExName 7 ''quintTupledLambdaParam4'', ExInt 8 1]) None)
                  (ExName 3 ''a'')))]"
  by (simp add: sample_defs exitIdentOrHole_def exitParameter_def exitLiteralOrId_def
      exitLambdaTupleSugar_def letBindingForTupleParam_def popMany_def popManyParams_def
      popExprOrUndefined_def pop_def pushExpr_def getId_eq Let_def showInt_4)

section \<open>Type names\<close>

lemma exitTypeAbstractDef_lowercase:
  assumes "typedef_qualId ctx = c # cs" and "isLowerAz c"
  shows "\<exists>s'. exitTypeAbstractDef ctx s = Inr s'
          \<and> errors s' = errors s @ [lowercaseTypeError (idGen s + 1) (c # cs)]
          \<and> declarationStack s' = declarationStack s @ [DeclTypeDef (idGen s + 1) (c # cs) None]"
  using assms by (simp add: exitTypeAbstractDef_def getId_eq Let_def)

lemma exitTypeAliasDef_lowercase:
  assumes "typedef_qualId ctx = c # cs" and "isLowerAz c" and "typeStack s = ts @ [t]"
  shows "\<exists>s'. exitTypeAliasDef ctx s = Inr s'
          \<and> errors s' = errors s @ [lowercaseTypeError (idGen s + 1) (c # cs)]
          \<and> declarationStack s' = declarationStack s @ [DeclTypeDef (idGen s + 1) (c # cs) (Some t)]"
  using assms by (simp add: exitTypeAliasDef_def popType_def pop_snoc getId_eq Let_def)

text \<open>
  C4 at \<^verbatim>\<open>type t = A | B\<close>, lowered from a fresh listener: the typedef and the two
  constructors are declared and the list of errors stays empty, whereas \<^verbatim>\<open>type t\<close> and
  \<^verbatim>\<open>type t = int\<close> each report the lowercase name.
\<close>

theorem sum_typedef_lowercase_name_unreported:
  "map_sum id declsAndErrors
     (walk [ExitTypeSumVariant (variantCtx ''A'' None),
            ExitTypeSumVariant (variantCtx ''B'' None),
            ExitTypeSumDef (sumDefCtx ''t'' [variantCtx ''A'' None, variantCtx ''B'' None])]
        (newListener ''sample.qnt'' 0))
     = Inr ([DeclTypeDef 3 ''t''
               (Some (TSum (Some 3)
                  (RowRow [RowField ''A'' (TRec (Some 1) (RowRow [] RowEmpty)),
                           RowField ''B'' (TRec (Some 2) (RowRow [] RowEmpty))] RowEmpty))),
             DeclDef (OpDef 7 ''A'' QVal
               (ExApp 6 ''variant'' [ExStr 4 ''A'', ExApp 5 ''Rec'' []])
               (Some (TConst (Some 3) ''t''))),
             DeclDef (OpDef 11 ''B'' QVal
               (ExApp 10 ''variant'' [ExStr 8 ''B'', ExApp 9 ''Rec'' []])
               (Some (TConst (Some 3) ''t'')))],
            [])
   \<and> map_sum id declsAndErrors
     (walk [ExitTypeAbstractDef (typeDefCtx ''t'')] (newListener ''sample.qnt'' 0))
     = Inr ([DeclTypeDef 1 ''t'' None], [lowercaseTypeError 1 ''t''])
   \<and> map_sum id declsAndErrors
     (walk [ExitTypeInt (ctxOf ''int''), ExitTypeAliasDef (typeDefCtx ''t'')]
        (newListener ''sample.qnt'' 0))
     = Inr ([DeclTypeDef 2 ''t'' (Some (TInt (Some 1)))], [lowercaseTypeError 2 ''t''])"
proof -
  define s0 where "s0 = newListener ''sample.qnt'' 0"
  define c0 where "c0 = sumDefCtx ''t'' [variantCtx ''A'' None, variantCtx ''B'' None]"
  have n: "typeSumVariant c0 = map snd twoPlainVariants"
    by (simp add: c0_def sumDefCtx_def twoPlainVariants_def)
  have v0: "variantStack s0 = []" by (simp add: s0_def newListener_def)
  have l: "payloadsLowered twoPlainVariants s0" unfolding s0_def by code_simp
  have f: "variantFields twoPlainVariants s0
      = [RowField ''A'' (TRec (Some 1) (RowRow [] RowEmpty)),
         RowField ''B'' (TRec (Some 2) (RowRow [] RowEmpty))]"
    unfolding s0_def by code_simp
  have i: "map_sum id idGen (walk (variantRules twoPlainVariants) s0) = Inr 2"
    unfolding s0_def by code_simp
  have d: "map_sum id declsAndErrors (walk (variantRules twoPlainVariants) s0) = Inr ([], [])"
    unfolding s0_def by code_simp
  have r: "variantRules twoPlainVariants @ [ExitTypeSumDef c0]
      = [ExitTypeSumVariant (variantCtx ''A'' None), ExitTypeSumVariant (variantCtx ''B'' None),
         ExitTypeSumDef c0]"
    by (simp add: twoPlainVariants_def)
  have t: "typeName c0 = ''t''" by (simp add: c0_def sumDefCtx_def)
  from variants_walk [OF l] v0 obtain s1
    where w: "walk (variantRules twoPlainVariants) s0 = Inr s1"
      and vst: "variantStack s1 = variantFields twoPlainVariants s0"
      and all: "list_all2 typeChildPresent (variantFields twoPlainVariants s0)
                  (map snd twoPlainVariants)"
    by auto
  have h: "list_all2 typeChildPresent (variantStack s1) (typeSumVariant c0)"
    using all vst n by simp
  have rr: "walk (variantRules twoPlainVariants @ [ExitTypeSumDef c0]) s0 = exitTypeSumDef c0 s1"
    using walk_then_rule [OF w, of "ExitTypeSumDef c0"] by simp
  have "map_sum id declsAndErrors (walk (variantRules twoPlainVariants @ [ExitTypeSumDef c0]) s0)
     = Inr ([DeclTypeDef 3 ''t''
               (Some (TSum (Some 3)
                  (RowRow [RowField ''A'' (TRec (Some 1) (RowRow [] RowEmpty)),
                           RowField ''B'' (TRec (Some 2) (RowRow [] RowEmpty))] RowEmpty))),
             DeclDef (OpDef 7 ''A'' QVal
               (ExApp 6 ''variant'' [ExStr 4 ''A'', ExApp 5 ''Rec'' []])
               (Some (TConst (Some 3) ''t''))),
             DeclDef (OpDef 11 ''B'' QVal
               (ExApp 10 ''variant'' [ExStr 8 ''B'', ExApp 9 ''Rec'' []])
               (Some (TConst (Some 3) ''t'')))],
            [])"
    using exitTypeSumDef_fields [OF h] w i d by (auto simp: rr vst f t declsAndErrors_def)
  then have sum: "map_sum id declsAndErrors
     (walk [ExitTypeSumVariant (variantCtx ''A'' None),
            ExitTypeSumVariant (variantCtx ''B'' None),
            ExitTypeSumDef (sumDefCtx ''t'' [variantCtx ''A'' None, variantCtx ''B'' None])]
        (newListener ''sample.qnt'' 0))
     = Inr ([DeclTypeDef 3 ''t''
               (Some (TSum (Some 3)
                  (RowRow [RowField ''A'' (TRec (Some 1) (RowRow [] RowEmpty)),
                           RowField ''B'' (TRec (Some 2) (RowRow [] RowEmpty))] RowEmpty))),
             DeclDef (OpDef 7 ''A'' QVal
               (ExApp 6 ''variant'' [ExStr 4 ''A'', ExApp 5 ''Rec'' []])
               (Some (TConst (Some 3) ''t''))),
             DeclDef (OpDef 11 ''B'' QVal
               (ExApp 10 ''variant'' [ExStr 8 ''B'', ExApp 9 ''Rec'' []])
               (Some (TConst (Some 3) ''t'')))],
            [])"
    unfolding r unfolding c0_def s0_def .
  have plain: "map_sum id declsAndErrors
     (walk [ExitTypeAbstractDef (typeDefCtx ''t'')] (newListener ''sample.qnt'' 0))
     = Inr ([DeclTypeDef 1 ''t'' None], [lowercaseTypeError 1 ''t''])"
    by code_simp
  have aliased: "map_sum id declsAndErrors
     (walk [ExitTypeInt (ctxOf ''int''), ExitTypeAliasDef (typeDefCtx ''t'')]
        (newListener ''sample.qnt'' 0))
     = Inr ([DeclTypeDef 2 ''t'' (Some (TInt (Some 1)))], [lowercaseTypeError 2 ''t''])"
    by code_simp
  show ?thesis using sum plain aliased by (intro conjI)
qed

section \<open>Recovery from missing children\<close>

text \<open>
  For comparison, the rules that take their children with \<^verbatim>\<open>popMany\<close>: they get the
  elements the stack holds, followed by one placeholder for each that is missing
  (expressions, parameters and types alike), and push their result, as the rule for
  \<^verbatim>\<open>+\<close> and \<^verbatim>\<open>-\<close> does.
\<close>

lemma pushDefaults_placeholders:
  assumes gen: "\<And>s. \<exists>s'. gen s = (mk (idGen s), s') \<and> idGen s' = idGen s + c \<and> errors s' = errors s"
  shows "\<exists>s'. pushDefaults k gen stack s = (stack @ map (\<lambda>j. mk (idGen s + c * int j)) [0..<k], s')
          \<and> idGen s' = idGen s + c * int k \<and> errors s' = errors s"
proof (induction k arbitrary: stack s)
  case 0
  then show ?case by simp
next
  case (Suc k)
  obtain s1 where g: "gen s = (mk (idGen s), s1)" and s1: "idGen s1 = idGen s + c" "errors s1 = errors s"
    using gen [of s] by auto
  obtain s2 where p: "pushDefaults k gen (stack @ [mk (idGen s)]) s1
        = ((stack @ [mk (idGen s)]) @ map (\<lambda>j. mk (idGen s1 + c * int j)) [0..<k], s2)"
    and s2: "idGen s2 = idGen s1 + c * int k" "errors s2 = errors s1"
    using Suc.IH [of "stack @ [mk (idGen s)]" s1] by auto
  have m: "map (\<lambda>j. mk (idGen s + c * int j)) [0..<Suc k]
      = mk (idGen s) # map (\<lambda>j. mk (idGen s1 + c * int j)) [0..<k]"
    by (simp add: map_upt_Suc s1 distrib_left add.assoc del: upt_Suc)
  show ?case
    using g p s1 s2 by (simp add: m distrib_left add.assoc del: upt_Suc)
qed

lemma popMany_placeholders:
  assumes gen: "\<And>s. \<exists>s'. gen s = (mk (idGen s), s') \<and> idGen s' = idGen s + c \<and> errors s' = errors s"
  shows "\<exists>s'. popMany stack n gen s
            = ((drop (length stack - n) stack @ map (\<lambda>j. mk (idGen s + c * int j)) [0..<n - length stack],
                take (length stack - n) stack), s')
          \<and> errors s' = errors s"
proof (cases "n \<le> length stack")
  case True
  then show ?thesis by (simp add: popMany_enough)
next
  case False
  obtain s1 where p: "pushDefaults (n - length stack) gen stack s
        = (stack @ map (\<lambda>j. mk (idGen s + c * int j)) [0..<n - length stack], s1)"
    and s1: "errors s1 = errors s"
    using pushDefaults_placeholders [of gen mk c "n - length stack" stack s, OF gen] by auto
  show ?thesis
    using False p s1 by (simp add: popMany_def)
qed

lemma popManyExprs_placeholders:
  "fst (popManyExprs ctx n s) =
     drop (length (exprStack s) - n) (exprStack s)
       @ map (\<lambda>j. undefinedExprAt (idGen s + 4 * int j)) [0..<n - length (exprStack s)]
   \<and> exprStack (snd (popManyExprs ctx n s)) = take (length (exprStack s) - n) (exprStack s)
   \<and> errors (snd (popManyExprs ctx n s)) = errors s"
proof -
  obtain s' where "popMany (exprStack s) n (undefinedExpr ctx) s
        = ((drop (length (exprStack s) - n) (exprStack s)
              @ map (\<lambda>j. undefinedExprAt (idGen s + 4 * int j)) [0..<n - length (exprStack s)],
            take (length (exprStack s) - n) (exprStack s)), s')"
    and "errors s' = errors s"
    using popMany_placeholders [of "undefinedExpr ctx" undefinedExprAt 4 "exprStack s" n s]
      undefinedExpr_result [of ctx]
    by blast
  then show ?thesis by (simp add: popManyExprs_def)
qed

lemma undefinedParam_result:
  "\<exists>s'. undefinedParam ctx s = (undefinedParamAt (idGen s), s')
        \<and> idGen s' = idGen s + 1 \<and> errors s' = errors s"
  by (simp add: undefinedParam_def undefinedParamAt_def consoleDebug_def getId_eq Let_def)

lemma undefinedType_result:
  "\<exists>s'. undefinedType ctx s = (undefinedTypeAt (idGen s), s')
        \<and> idGen s' = idGen s + 1 \<and> errors s' = errors s"
  by (simp add: undefinedType_def undefinedTypeAt_def consoleDebug_def getId_eq Let_def)

lemma popManyParams_placeholders:
  "fst (popManyParams ctx n s) =
     drop (length (paramStack s) - n) (paramStack s)
       @ map (\<lambda>j. undefinedParamAt (idGen s + int j)) [0..<n - length (paramStack s)]
   \<and> errors (snd (popManyParams ctx n s)) = errors s"
proof -
  obtain s' where "popMany (paramStack s) n (undefinedParam ctx) s
        = ((drop (length (paramStack s) - n) (paramStack s)
              @ map (\<lambda>j. undefinedParamAt (idGen s + int j)) [0..<n - length (paramStack s)],
            take (length (paramStack s) - n) (paramStack s)), s')"
    and "errors s' = errors s"
    using popMany_placeholders [of "undefinedParam ctx" undefinedParamAt 1 "paramStack s" n s]
      undefinedParam_result [of ctx]
    by auto
  then show ?thesis by (simp add: popManyParams_def)
qed

lemma popManyTypes_placeholders:
  "fst (popManyTypes ctx n s) =
     drop (length (typeStack s) - n) (typeStack s)
       @ map (\<lambda>j. undefinedTypeAt (idGen s + int j)) [0..<n - length (typeStack s)]
   \<and> errors (snd (popManyTypes ctx n s)) = errors s"
proof -
  obtain s' where "popMany (typeStack s) n (undefinedType ctx) s
        = ((drop (length (typeStack s) - n) (typeStack s)
              @ map (\<lambda>j. undefinedTypeAt (idGen s + int j)) [0..<n - length (typeStack s)],
            take (length (typeStack s) - n) (typeStack s)), s')"
    and "errors s' = errors s"
    using popMany_placeholders [of "undefinedType ctx" undefinedTypeAt 1 "typeStack s" n s]
      undefinedType_result [of ctx]
    by auto
  then show ?thesis by (simp add: popManyTypes_def)
qed

lemma exitPlusMinus_pushes:
  "\<exists>i args. exprStack (exitPlusMinus pctx s) =
       take (length (exprStack s) - 2) (exprStack s)
         @ [ExApp i (if has_PLUS pctx then ''iadd'' else ''isub'') args]
     \<and> length args = 2 \<and> errors (exitPlusMinus pctx s) = errors s"
proof -
  obtain args s1 where p: "popManyExprs pctx 2 s = (args, s1)" by (cases "popManyExprs pctx 2 s")
  with popManyExprs_placeholders [of pctx 2 s]
  have a: "args = drop (length (exprStack s) - 2) (exprStack s)
       @ map (\<lambda>j. undefinedExprAt (idGen s + 4 * int j)) [0..<2 - length (exprStack s)]"
    and s1: "exprStack s1 = take (length (exprStack s) - 2) (exprStack s)" "errors s1 = errors s"
    by simp_all
  have "length args = 2" unfolding a by simp
  then show ?thesis
    using p s1 by (simp add: exitPlusMinus_def pushApplication_def getId_eq Let_def)
qed

text \<open>The rules that pop without a check, on an empty expression stack.\<close>

lemma unchecked_pops_on_empty_stack:
  assumes "exprStack s = []"
  shows "exitUminus ctx s = s"
    and "declarationStack (exitAssume ctx s) =
           declarationStack s
             @ [DeclAssume (idGen s + 1) (fst (pop (identOrHoleStack s))) ExUndefined]"
    and "exprStack (exitRecElem rctx s) =
           [ExApp 0 ''Tup'' (case simpleId rctx of
                               Some f \<Rightarrow> [ExStr (idGen s + 1) f, ExUndefined]
                             | None \<Rightarrow> [ExUndefined])]"
  using assms
  by (simp_all add: exitUminus_def exitAssume_def exitRecElem_def popExprUnchecked_def pop_Nil
      pushExpr_def getId_eq Let_def split: prod.splits option.splits)

text \<open>
  C6 at \<^verbatim>\<open>module M { assume a = { ...r, ...s } }\<close>, lowered from a fresh listener.  The
  literal has two spreads and pushes nothing, so \<^verbatim>\<open>exitAssume\<close> finds the expression stack
  empty: it builds no placeholder, and the module that comes out declares the assumption
  \<^verbatim>\<open>a\<close> over \<^verbatim>\<open>undefined\<close>.  The same on an empty expression stack, rule by rule: unary minus
  pushes nothing and writes no note; \<^verbatim>\<open>exitAssume\<close> and \<^verbatim>\<open>exitRecElem\<close> build their results
  around \<^verbatim>\<open>undefined\<close>; an operator application with an argument list builds the
  placeholder, which takes the identifiers 1 to 4, and then pushes nothing.
\<close>

theorem missing_expression_not_replaced:
  "map_sum id outputAndErrors (walk assumeTwoSpreadsWalk (newListener ''sample.qnt'' 0))
     = Inr ([[DeclAssume 4 (Some ''a'') ExUndefined]], [tooManySpreadsError 3])
   \<and> stackAndLastId (exitUminus (ctxOf ''-'') (newListener ''sample.qnt'' 0)) = ([], 0)
   \<and> console (exitUminus (ctxOf ''-'') (newListener ''sample.qnt'' 0)) = []
   \<and> declarationStack (exitAssume (ctxOf ''assume'') (newListener ''sample.qnt'' 0))
       = [DeclAssume 1 None ExUndefined]
   \<and> exprStack (exitRecElem (fieldCtx ''x'') (newListener ''sample.qnt'' 0))
       = [ExApp 0 ''Tup'' [ExStr 1 ''x'', ExUndefined]]
   \<and> stackAndLastId (exitOperApp (operAppCtx ''f'') (newListener ''sample.qnt'' 0)) = ([], 4)"
  by code_simp

section \<open>Identifiers and the source map\<close>

lemma getId_fresh:
  "fst (getId ctx s) = idGen s + 1
   \<and> idGen (snd (getId ctx s)) = idGen s + 1
   \<and> sourceMap (snd (getId ctx s)) (idGen s + 1) = Some (loc (sourceLocation s) ctx)
   \<and> dom (sourceMap (snd (getId ctx s))) = insert (idGen s + 1) (dom (sourceMap s))"
  by (simp add: getId_eq Let_def)

text \<open>
  C8 at \<^verbatim>\<open>module M { val x = { a: 1, b: { ...r, ...s } } }\<close>, lowered from a fresh
  listener.  The inner literal has two spreads and pushes nothing, so the element \<^verbatim>\<open>b\<close>
  takes the wrapper of the element \<^verbatim>\<open>a\<close> as its value.  The module that comes out holds the
  identifiers 13, 12, 11, 6, 0, 2 and 1: the wrapper with identifier 0 is part of the
  output, and 0 has no entry in the source map.
\<close>

theorem transient_wrapper_reaches_output:
  "map_sum id idReport (walk nestedSpreadsWalk (newListener ''sample.qnt'' 0))
     = Inr ([13, 12, 11, 6, 0, 2, 1], [0])"
  by code_simp

end
